theory Spec2Isabelle
  imports Complex_Main "HOL-Library.Sublist" "HOL-Library.Word"
begin

section \<open>Common Python notions\<close>

text \<open>
  Python floats are modelled as exact rationals, Python ints as \<^typ>\<open>int\<close>, strings as
  \<^typ>\<open>string\<close> over ASCII code points, and every exception the modelled code can raise
  as a value of \<open>py_error\<close>. Two limits follow. Where a sum of floats differs from the
  exact sum by a rounding error, a comparison that the exact values tie can fall the
  other way in the program (\<open>0.7 + 0.2 < 0.9\<close> in floats); in the concrete runs below
  the float comparisons of the program come out as the exact ones do. Outside ASCII the program counts more characters as white space,
  letters and case pairs than the model does, and encodes a character in several bytes
  before hashing.
\<close>

datatype py_error = TypeError | KeyError | IndexError | ZeroDivisionError

text \<open>Truthiness of an optional string (\<open>None\<close> and \<open>''\<close> are falsy), as in \<open>d.get(k)\<close>.\<close>

definition truthy :: "string option \<Rightarrow> bool" where
  "truthy v = (case v of None \<Rightarrow> False | Some s \<Rightarrow> s \<noteq> [])"

text \<open>\<open>d.get(k, '')\<close> for a key whose value is a string.\<close>

definition get_str :: "string option \<Rightarrow> string" where
  "get_str v = (case v of None \<Rightarrow> [] | Some s \<Rightarrow> s)"

text \<open>\<open>str.lower\<close> on ASCII text: the letters A to Z map to a to z.\<close>

definition lower_char :: "char \<Rightarrow> char" where
  "lower_char c =
     (case map_of (zip ''ABCDEFGHIJKLMNOPQRSTUVWXYZ'' ''abcdefghijklmnopqrstuvwxyz'') c of
        Some d \<Rightarrow> d
      | None \<Rightarrow> c)"

definition lower :: "string \<Rightarrow> string" where
  "lower s = map lower_char s"

text \<open>\<open>xs[:n]\<close>: a negative bound counts from the end.\<close>

definition py_take :: "int \<Rightarrow> 'a list \<Rightarrow> 'a list" where
  "py_take n xs = (if 0 \<le> n then take (nat n) xs else take (length xs - nat (- n)) xs)"

section \<open>Intelligent source router (\<open>src/core/intelligent_source_router.py\<close>)\<close>

datatype SourceType = API | SCRAPER | WEB_SEARCH | HYBRID

datatype QueryType =
    GENERAL_JOB_SEARCH | COMPANY_SPECIFIC | SKILL_BASED | LOCATION_SPECIFIC
  | EXPERIENCE_LEVEL | REMOTE_WORK | SALARY_RANGE | RECENT_POSTINGS

record SourcePerformance =
  source_id :: string
  source_type :: SourceType
  success_rate :: rat
  avg_response_time :: rat
  avg_jobs_found :: rat
  last_used :: rat
  failure_count :: int
  total_requests :: int
  is_available :: bool
  priority_score :: rat

record QueryProfile =
  query_type :: QueryType
  preferred_sources :: "string list"
  min_sources :: int
  max_sources :: int
  timeout :: rat
  expected_jobs :: int

subsection \<open>The dataclass constructor\<close>

text \<open>
  \<open>SourcePerformance\<close> is a dataclass whose first two fields, \<open>source_id\<close> and
  \<open>source_type\<close>, have no default; the generated \<open>__init__\<close> raises \<open>TypeError\<close> when
  either is not passed. Every other field has a default. A keyword argument that the
  caller leaves out is \<open>None\<close> here.
\<close>

definition new_SourcePerformance ::
  "string option \<Rightarrow> SourceType option \<Rightarrow> rat option \<Rightarrow> rat option \<Rightarrow> rat option \<Rightarrow>
   rat option \<Rightarrow> int option \<Rightarrow> int option \<Rightarrow> bool option \<Rightarrow> rat option \<Rightarrow>
   py_error + SourcePerformance" where
  "new_SourcePerformance sid stype sr art ajf lu fc tr av ps =
     (case sid of
        None \<Rightarrow> Inl TypeError
      | Some i \<Rightarrow>
          (case stype of
             None \<Rightarrow> Inl TypeError
           | Some t \<Rightarrow>
               Inr \<lparr> source_id = i, source_type = t,
                     success_rate = (case sr of None \<Rightarrow> 0 | Some v \<Rightarrow> v),
                     avg_response_time = (case art of None \<Rightarrow> 0 | Some v \<Rightarrow> v),
                     avg_jobs_found = (case ajf of None \<Rightarrow> 0 | Some v \<Rightarrow> v),
                     last_used = (case lu of None \<Rightarrow> 0 | Some v \<Rightarrow> v),
                     failure_count = (case fc of None \<Rightarrow> 0 | Some v \<Rightarrow> v),
                     total_requests = (case tr of None \<Rightarrow> 0 | Some v \<Rightarrow> v),
                     is_available = (case av of None \<Rightarrow> True | Some v \<Rightarrow> v),
                     priority_score = (case ps of None \<Rightarrow> 0 | Some v \<Rightarrow> v) \<rparr>))"

subsection \<open>PerformanceTracker\<close>

text \<open>One entry of a source's rolling window (the \<open>result\<close> dict of \<open>record_request\<close>).\<close>

record request_result =
  timestamp :: rat
  success :: bool
  response_time :: rat
  jobs_found :: int

text \<open>
  The tracker: \<open>performance_history\<close> is a \<open>defaultdict\<close> of \<open>deque(maxlen=history_size)\<close>,
  \<open>source_metrics\<close> a plain dict. The lock is not modelled (one call at a time).
\<close>

record PerformanceTracker =
  history_size :: nat
  performance_history :: "string \<rightharpoonup> request_result list"
  source_metrics :: "string \<rightharpoonup> SourcePerformance"

definition new_PerformanceTracker :: "nat \<Rightarrow> PerformanceTracker" where
  "new_PerformanceTracker n =
     \<lparr> history_size = n, performance_history = Map.empty, source_metrics = Map.empty \<rparr>"

text \<open>\<open>performance_history[source_id]\<close>: a missing key reads as an empty deque.\<close>

definition history_of :: "PerformanceTracker \<Rightarrow> string \<Rightarrow> request_result list" where
  "history_of t sid = (case performance_history t sid of None \<Rightarrow> [] | Some h \<Rightarrow> h)"

text \<open>
  \<open>deque(maxlen=n).append(e)\<close> on a deque holding at most \<open>n\<close> entries: when it is full
  the entry at the left end is discarded (with \<open>n = 0\<close> the new entry itself).
\<close>

definition deque_append :: "nat \<Rightarrow> 'a list \<Rightarrow> 'a \<Rightarrow> 'a list" where
  "deque_append n h e = (if length h < n then h @ [e] else tl (h @ [e]))"

definition calculate_priority_score :: "rat \<Rightarrow> rat \<Rightarrow> rat \<Rightarrow> rat" where
  "calculate_priority_score sr rt jf =
     (let normalized_success = sr;
          normalized_speed = max 0 (1 - rt / 30);
          normalized_yield = min 1 (jf / 20)
      in normalized_success * (5 / 10) + normalized_speed * (3 / 10) + normalized_yield * (2 / 10))"

text \<open>
  The values \<open>_update_metrics\<close> derives from a non-empty window (its lines up to the
  construction of the record), in the order: total requests, successful requests,
  success rate, average response time, average jobs found, priority score.
\<close>

record window_metrics =
  wm_total_requests :: nat
  wm_successful_requests :: nat
  wm_success_rate :: rat
  wm_avg_response_time :: rat
  wm_avg_jobs_found :: rat
  wm_priority_score :: rat

definition derive_metrics :: "request_result list \<Rightarrow> window_metrics" where
  "derive_metrics history =
     (let total = length history;
          successful = length (filter success history);
          sr = (if total > 0 then of_nat successful / of_nat total else 0);
          art = sum_list (map response_time history) / of_nat total;
          ajf = of_int (sum_list (map jobs_found history)) / of_nat total
      in \<lparr> wm_total_requests = total, wm_successful_requests = successful,
           wm_success_rate = sr, wm_avg_response_time = art, wm_avg_jobs_found = ajf,
           wm_priority_score = calculate_priority_score sr art ajf \<rparr>)"

text \<open>
  \<open>_update_metrics\<close>: returns at once on an empty window; otherwise derives the metrics
  and builds the \<open>SourcePerformance\<close> record, passing every field except \<open>source_type\<close>.
\<close>

definition update_metrics :: "PerformanceTracker \<Rightarrow> string \<Rightarrow> py_error + PerformanceTracker" where
  "update_metrics t sid =
     (let history = history_of t sid in
      if history = [] then Inr t
      else
        (let m = derive_metrics history in
         case new_SourcePerformance (Some sid) None
                (Some (wm_success_rate m)) (Some (wm_avg_response_time m))
                (Some (wm_avg_jobs_found m)) (Some (timestamp (last history)))
                (Some (int (wm_total_requests m) - int (wm_successful_requests m)))
                (Some (int (wm_total_requests m)))
                (Some (wm_success_rate m > 3 / 10))
                (Some (wm_priority_score m)) of
           Inl e \<Rightarrow> Inl e
         | Inr p \<Rightarrow> Inr (t\<lparr> source_metrics := (source_metrics t)(sid \<mapsto> p) \<rparr>)))"

text \<open>
  \<open>record_request\<close>, with the clock reading \<open>now\<close> as an argument. The append has
  happened when \<open>_update_metrics\<close> runs, so the returned tracker holds the new entry
  also when the call ends in an exception (\<open>Some e\<close>).
\<close>

definition record_request ::
  "PerformanceTracker \<Rightarrow> rat \<Rightarrow> string \<Rightarrow> bool \<Rightarrow> rat \<Rightarrow> int \<Rightarrow>
   py_error option \<times> PerformanceTracker" where
  "record_request t now sid ok rt jf =
     (let result = \<lparr> timestamp = now, success = ok, response_time = rt, jobs_found = jf \<rparr>;
          t1 = t\<lparr> performance_history :=
                    (performance_history t)(sid \<mapsto>
                       deque_append (history_size t) (history_of t sid) result) \<rparr>
      in case update_metrics t1 sid of
           Inl e \<Rightarrow> (Some e, t1)
         | Inr t2 \<Rightarrow> (None, t2))"

definition get_source_metrics :: "PerformanceTracker \<Rightarrow> string \<Rightarrow> SourcePerformance option" where
  "get_source_metrics t sid = source_metrics t sid"

subsection \<open>QueryAnalyzer\<close>

text \<open>The parsed query handed over by the query parser; an absent key is \<open>None\<close>.\<close>

record parsed_query =
  q_company :: "string option"
  q_skills :: "string list option"
  q_location :: "string option"
  q_remote :: "bool option"
  q_salary_range :: "string option"
  q_experience_level :: "string option"
  q_job_type :: "string option"

definition empty_query :: parsed_query where
  "empty_query =
     \<lparr> q_company = None, q_skills = None, q_location = None, q_remote = None,
       q_salary_range = None, q_experience_level = None, q_job_type = None \<rparr>"

definition query_profiles :: "QueryType \<rightharpoonup> QueryProfile" where
  "query_profiles =
     [ GENERAL_JOB_SEARCH \<mapsto>
         \<lparr> query_type = GENERAL_JOB_SEARCH,
           preferred_sources =
             [''scraper_bdjobs'', ''scraper_linkedin'', ''web_search'', ''api_linkedin'', ''api_indeed''],
           min_sources = 2, max_sources = 4, timeout = 30, expected_jobs = 15 \<rparr>,
       COMPANY_SPECIFIC \<mapsto>
         \<lparr> query_type = COMPANY_SPECIFIC,
           preferred_sources =
             [''scraper_bdjobs'', ''scraper_linkedin'', ''api_linkedin'', ''web_search''],
           min_sources = 2, max_sources = 3, timeout = 25, expected_jobs = 8 \<rparr>,
       SKILL_BASED \<mapsto>
         \<lparr> query_type = SKILL_BASED,
           preferred_sources =
             [''scraper_bdjobs'', ''scraper_linkedin'', ''scraper_skilljobs'', ''web_search'',
              ''api_linkedin''],
           min_sources = 2, max_sources = 4, timeout = 30, expected_jobs = 12 \<rparr>,
       LOCATION_SPECIFIC \<mapsto>
         \<lparr> query_type = LOCATION_SPECIFIC,
           preferred_sources = [''scraper_bdjobs'', ''scraper_skilljobs'', ''web_search''],
           min_sources = 2, max_sources = 3, timeout = 25, expected_jobs = 10 \<rparr>,
       REMOTE_WORK \<mapsto>
         \<lparr> query_type = REMOTE_WORK,
           preferred_sources = [''api_linkedin'', ''web_search'', ''api_indeed''],
           min_sources = 2, max_sources = 4, timeout = 30, expected_jobs = 12 \<rparr>,
       RECENT_POSTINGS \<mapsto>
         \<lparr> query_type = RECENT_POSTINGS,
           preferred_sources = [''scraper_bdjobs'', ''scraper_skilljobs'', ''web_search''],
           min_sources = 2, max_sources = 3, timeout = 20, expected_jobs = 8 \<rparr> ]"

definition classify_query :: "parsed_query \<Rightarrow> QueryType" where
  "classify_query pd =
     (if truthy (q_company pd) then COMPANY_SPECIFIC
      else if (case q_skills pd of None \<Rightarrow> False | Some ss \<Rightarrow> ss \<noteq> []) then SKILL_BASED
      else if truthy (q_location pd) \<and> lower (get_str (q_location pd)) \<noteq> ''bangladesh''
        then LOCATION_SPECIFIC
      else if (case q_remote pd of None \<Rightarrow> False | Some b \<Rightarrow> b) then REMOTE_WORK
      else if truthy (q_salary_range pd) then SALARY_RANGE
      else if truthy (q_experience_level pd) then EXPERIENCE_LEVEL
      else if q_job_type pd = Some ''recent'' then RECENT_POSTINGS
      else GENERAL_JOB_SEARCH)"

text \<open>\<open>query_profiles.get(query_type, query_profiles[GENERAL_JOB_SEARCH])\<close>.\<close>

definition get_query_profile :: "QueryType \<Rightarrow> QueryProfile" where
  "get_query_profile qt =
     (case query_profiles qt of Some p \<Rightarrow> p | None \<Rightarrow> the (query_profiles GENERAL_JOB_SEARCH))"

subsection \<open>IntelligentSourceRouter\<close>

text \<open>
  A catalog entry. The catalog is a dict literal that the router iterates over, so it
  is an association list in insertion order. The nested \<open>config\<close> dict of an entry is
  never read by the router and is left out.
\<close>

record source_config =
  sc_id :: string
  sc_name :: string
  sc_type :: SourceType
  sc_priority :: rat
  sc_enabled :: bool

record IntelligentSourceRouter =
  performance_tracker :: PerformanceTracker
  available_sources :: "(string \<times> source_config) list"
  adaptive_learning :: bool
  max_concurrent_sources :: nat

definition initialize_sources :: "(string \<times> source_config) list" where
  "initialize_sources =
     [ (''api_linkedin'',
          \<lparr> sc_id = ''api_linkedin'', sc_name = ''LinkedIn API'', sc_type = API,
            sc_priority = 1, sc_enabled = True \<rparr>),
       (''api_indeed'',
          \<lparr> sc_id = ''api_indeed'', sc_name = ''Indeed API'', sc_type = API,
            sc_priority = 9 / 10, sc_enabled = True \<rparr>),
       (''scraper_bdjobs'',
          \<lparr> sc_id = ''scraper_bdjobs'', sc_name = ''BDJobs Scraper'', sc_type = SCRAPER,
            sc_priority = 8 / 10, sc_enabled = True \<rparr>),
       (''scraper_linkedin'',
          \<lparr> sc_id = ''scraper_linkedin'', sc_name = ''LinkedIn Scraper'', sc_type = SCRAPER,
            sc_priority = 8 / 10, sc_enabled = True \<rparr>),
       (''scraper_skilljobs'',
          \<lparr> sc_id = ''scraper_skilljobs'', sc_name = ''Skill.jobs Scraper'', sc_type = SCRAPER,
            sc_priority = 7 / 10, sc_enabled = True \<rparr>),
       (''scraper_shomvob'',
          \<lparr> sc_id = ''scraper_shomvob'', sc_name = ''Shomvob Scraper'', sc_type = SCRAPER,
            sc_priority = 6 / 10, sc_enabled = True \<rparr>),
       (''web_search'',
          \<lparr> sc_id = ''web_search'', sc_name = ''Advanced Web Search'', sc_type = WEB_SEARCH,
            sc_priority = 5 / 10, sc_enabled = True \<rparr>) ]"

definition new_IntelligentSourceRouter :: IntelligentSourceRouter where
  "new_IntelligentSourceRouter =
     \<lparr> performance_tracker = new_PerformanceTracker 100,
       available_sources = initialize_sources,
       adaptive_learning = True,
       max_concurrent_sources = 3 \<rparr>"

text \<open>An element of the candidate lists: the dict with keys \<open>id\<close>, \<open>config\<close>, \<open>metrics\<close>.\<close>

record candidate =
  c_id :: string
  c_config :: source_config
  c_metrics :: "SourcePerformance option"

definition get_available_sources :: "IntelligentSourceRouter \<Rightarrow> candidate list" where
  "get_available_sources r =
     map (\<lambda>(sid, cfg).
            \<lparr> c_id = sid, c_config = cfg,
              c_metrics = get_source_metrics (performance_tracker r) sid \<rparr>)
       (filter (\<lambda>(sid, cfg).
                  sc_enabled cfg \<and>
                  (case get_source_metrics (performance_tracker r) sid of
                     None \<Rightarrow> True
                   | Some m \<Rightarrow> is_available m))
          (available_sources r))"

text \<open>
  \<open>preference_map = {source: i for i, source in enumerate(preferred_sources)}\<close>: of a
  repeated id the last position stays.
\<close>

definition preference_map :: "string list \<Rightarrow> (string \<rightharpoonup> nat)" where
  "preference_map preferred = map_of (rev (zip preferred [0 ..< length preferred]))"

definition preference_key :: "string list \<Rightarrow> candidate \<Rightarrow> nat" where
  "preference_key preferred s =
     (case preference_map preferred (c_id s) of None \<Rightarrow> length preferred | Some i \<Rightarrow> i)"

text \<open>\<open>sorted\<close> is stable, as \<^const>\<open>sort_key\<close> is.\<close>

definition filter_by_preferences :: "candidate list \<Rightarrow> string list \<Rightarrow> candidate list" where
  "filter_by_preferences sources preferred =
     (if preferred = [] then sources else sort_key (preference_key preferred) sources)"

definition boosts :: "QueryType \<Rightarrow> (string \<times> rat) list" where
  "boosts qt =
     (case qt of
        COMPANY_SPECIFIC \<Rightarrow>
          [(''api_linkedin'', 2 / 10), (''api_indeed'', 1 / 10), (''web_search'', 1 / 10)]
      | LOCATION_SPECIFIC \<Rightarrow>
          [(''scraper_bdjobs'', 2 / 10), (''scraper_skilljobs'', 2 / 10),
           (''scraper_shomvob'', 1 / 10)]
      | SKILL_BASED \<Rightarrow>
          [(''web_search'', 2 / 10), (''api_linkedin'', 1 / 10), (''scraper_skilljobs'', 1 / 10)]
      | REMOTE_WORK \<Rightarrow>
          [(''api_linkedin'', 2 / 10), (''api_indeed'', 1 / 10), (''web_search'', 1 / 10)]
      | _ \<Rightarrow> [])"

definition get_query_type_boost :: "source_config \<Rightarrow> QueryType \<Rightarrow> rat" where
  "get_query_type_boost cfg qt =
     (case map_of (boosts qt) (sc_id cfg) of None \<Rightarrow> 0 | Some b \<Rightarrow> b)"

definition rank_key :: "QueryType \<Rightarrow> candidate \<Rightarrow> rat" where
  "rank_key qt s =
     (let base_priority = sc_priority (c_config s);
          performance_boost =
            (case c_metrics s of None \<Rightarrow> 0 | Some m \<Rightarrow> priority_score m * (3 / 10));
          query_boost = get_query_type_boost (c_config s) qt
      in base_priority + performance_boost + query_boost)"

text \<open>
  \<open>sorted(sources, key=rank_key, reverse=True)\<close>: descending, and candidates of equal
  rank stay in their order.
\<close>

definition rank_sources :: "candidate list \<Rightarrow> QueryType \<Rightarrow> candidate list" where
  "rank_sources sources qt = sort_key (\<lambda>s. - rank_key qt s) sources"

definition select_optimal_sources :: "candidate list \<Rightarrow> QueryProfile \<Rightarrow> int \<Rightarrow> string list" where
  "select_optimal_sources ranked qp max_src =
     (let num0 = min max_src (min (max_sources qp) (int (length ranked)));
          num = (if num0 < min_sources qp \<and> int (length ranked) \<ge> min_sources qp
                 then min_sources qp else num0)
      in map c_id (py_take num ranked))"

definition select_sources :: "IntelligentSourceRouter \<Rightarrow> parsed_query \<Rightarrow> int \<Rightarrow> string list" where
  "select_sources r pd max_src =
     (let qt = classify_query pd;
          qp = get_query_profile qt;
          avail = get_available_sources r;
          preferred = filter_by_preferences avail (preferred_sources qp);
          ranked = rank_sources preferred qt
      in select_optimal_sources ranked qp max_src)"

text \<open>
  \<open>_update_source_availability\<close> sets the flag on the record that the tracker's dict
  holds (the same object), so the update is written back into the tracker.
\<close>

definition update_source_availability :: "IntelligentSourceRouter \<Rightarrow> string \<Rightarrow> IntelligentSourceRouter" where
  "update_source_availability r sid =
     (case get_source_metrics (performance_tracker r) sid of
        None \<Rightarrow> r
      | Some m \<Rightarrow>
          if failure_count m \<ge> 5 \<and> success_rate m < 2 / 10
          then r\<lparr> performance_tracker :=
                    (performance_tracker r)\<lparr> source_metrics :=
                       (source_metrics (performance_tracker r))(sid \<mapsto> m\<lparr> is_available := False \<rparr>) \<rparr> \<rparr>
          else r)"

text \<open>
  \<open>record_source_result\<close>: an exception of the tracker's \<open>record_request\<close> leaves the
  method before the adaptive step.
\<close>

definition record_source_result ::
  "IntelligentSourceRouter \<Rightarrow> rat \<Rightarrow> string \<Rightarrow> bool \<Rightarrow> rat \<Rightarrow> int \<Rightarrow>
   py_error option \<times> IntelligentSourceRouter" where
  "record_source_result r now sid ok rt jf =
     (case record_request (performance_tracker r) now sid ok rt jf of
        (Some e, t') \<Rightarrow> (Some e, r\<lparr> performance_tracker := t' \<rparr>)
      | (None, t') \<Rightarrow>
          (let r' = r\<lparr> performance_tracker := t' \<rparr>
           in (None, if adaptive_learning r' then update_source_availability r' sid else r')))"

text \<open>A run of feedback calls, each given as (clock, source, success, response time, jobs).\<close>

definition record_all ::
  "IntelligentSourceRouter \<Rightarrow> (rat \<times> string \<times> bool \<times> rat \<times> int) list \<Rightarrow> IntelligentSourceRouter" where
  "record_all r calls =
     fold (\<lambda>(now, sid, ok, rt, jf) r'. snd (record_source_result r' now sid ok rt jf)) calls r"

text \<open>A tracker whose window for \<open>web_search\<close> is full.\<close>

definition full_tracker :: PerformanceTracker where
  "full_tracker =
     \<lparr> history_size = 100,
       performance_history =
         [''web_search'' \<mapsto>
            replicate 100 \<lparr> timestamp = 0, success = True, response_time = 1, jobs_found = 4 \<rparr>],
       source_metrics = Map.empty \<rparr>"

section \<open>Strings and regular expressions\<close>

text \<open>
  White space as \<open>str.isspace\<close>, \<open>str.strip\<close>, \<open>str.split\<close> and the class \<open>\s\<close> see it on
  ASCII text: tab, line feed, vertical tab, form feed, carriage return, the four
  separators 0x1C to 0x1F, and the blank.
\<close>

definition whitespace :: string where
  "whitespace =
     [CHR 0x09, CHR 0x0A, CHR 0x0B, CHR 0x0C, CHR 0x0D, CHR 0x1C, CHR 0x1D, CHR 0x1E, CHR 0x1F,
      CHR '' '']"

definition is_space :: "char \<Rightarrow> bool" where
  "is_space c = (c \<in> set whitespace)"

definition digits :: string where
  "digits = ''0123456789''"

text \<open>The characters of \<open>\w\<close> (letters, digits, underscore), which decide \<open>\b\<close>.\<close>

definition word_chars :: string where
  "word_chars =
     ''abcdefghijklmnopqrstuvwxyz'' @ ''ABCDEFGHIJKLMNOPQRSTUVWXYZ'' @ digits @ ''_''"

definition is_upper :: "char \<Rightarrow> bool" where
  "is_upper c = (c \<in> set ''ABCDEFGHIJKLMNOPQRSTUVWXYZ'')"

definition strip :: "string \<Rightarrow> string" where
  "strip s = rev (dropWhile is_space (rev (dropWhile is_space s)))"

text \<open>\<open>s.split()\<close>: the maximal runs of non-blank characters.\<close>

fun words_acc :: "string \<Rightarrow> string \<Rightarrow> string list" where
  "words_acc w [] = (if w = [] then [] else [w])"
| "words_acc w (c # cs) =
     (if is_space c then (if w = [] then words_acc [] cs else w # words_acc [] cs)
      else words_acc (w @ [c]) cs)"

definition split_ws :: "string \<Rightarrow> string list" where
  "split_ws s = words_acc [] s"

text \<open>\<open>sub in s\<close> for strings.\<close>

fun contains :: "string \<Rightarrow> string \<Rightarrow> bool" where
  "contains sub [] = (sub = [])"
| "contains sub (c # cs) = (prefix sub (c # cs) \<or> contains sub cs)"

text \<open>
  The fragment of Python's \<open>re\<close> syntax that the patterns of this program use. \<open>Lit\<close> is a
  literal string, \<open>LitI\<close> a literal under \<open>re.IGNORECASE\<close>, \<open>Cls\<close> a character of the
  given set, \<open>NCls\<close> a character outside it (\<open>.\<close> is \<open>NCls\<close> of the line feed), \<open>Star\<close> and
  \<open>Lazy\<close> the greedy and the non-greedy repetition, \<open>WordB\<close>, \<open>Bol\<close> and \<open>Eol\<close> the anchors
  \<open>\b\<close>, \<open>^\<close> and \<open>$\<close>.
\<close>

datatype regex =
    Lit string
  | LitI string
  | Cls string
  | NCls string
  | Seq regex regex
  | Alt regex regex
  | Opt regex
  | Star regex
  | Lazy regex
  | WordB
  | Bol
  | Eol

text \<open>
  A position in the subject string: the character before it (\<open>None\<close> at the start) and
  the text from it on.
\<close>

type_synonym position = "char option \<times> string"

definition is_word :: "char option \<Rightarrow> bool" where
  "is_word c = (case c of None \<Rightarrow> False | Some x \<Rightarrow> x \<in> set word_chars)"

definition next_char :: "string \<Rightarrow> char option" where
  "next_char s = (case s of [] \<Rightarrow> None | c # _ \<Rightarrow> Some c)"

definition advance :: "nat \<Rightarrow> position \<Rightarrow> position" where
  "advance n p =
     (if n = 0 then p else (Some (snd p ! (n - 1)), drop n (snd p)))"

text \<open>
  Repetition, in the order in which the backtracking matcher tries the alternatives:
  the greedy one prefers another round, the non-greedy one prefers to stop. A round
  counts only if it consumes a character, so \<open>n\<close> rounds suffice for \<open>n\<close> characters.
\<close>

fun star_greedy :: "nat \<Rightarrow> (position \<Rightarrow> position list) \<Rightarrow> position \<Rightarrow> position list" where
  "star_greedy 0 f p = [p]"
| "star_greedy (Suc n) f p =
     concat (map (star_greedy n f)
       (filter (\<lambda>q. length (snd q) < length (snd p)) (f p))) @ [p]"

fun star_lazy :: "nat \<Rightarrow> (position \<Rightarrow> position list) \<Rightarrow> position \<Rightarrow> position list" where
  "star_lazy 0 f p = [p]"
| "star_lazy (Suc n) f p =
     p # concat (map (star_lazy n f)
       (filter (\<lambda>q. length (snd q) < length (snd p)) (f p)))"

text \<open>
  \<open>rmatch r p\<close>: the positions at which a match of \<open>r\<close> starting at \<open>p\<close> can end, in the
  matcher's order of preference.
\<close>

primrec rmatch :: "regex \<Rightarrow> position \<Rightarrow> position list" where
  "rmatch (Lit s) = (\<lambda>p. if prefix s (snd p) then [advance (length s) p] else [])"
| "rmatch (LitI s) =
     (\<lambda>p. if prefix (lower s) (lower (take (length s) (snd p))) then [advance (length s) p]
          else [])"
| "rmatch (Cls cs) =
     (\<lambda>p. case snd p of [] \<Rightarrow> [] | c # r \<Rightarrow> if c \<in> set cs then [(Some c, r)] else [])"
| "rmatch (NCls cs) =
     (\<lambda>p. case snd p of [] \<Rightarrow> [] | c # r \<Rightarrow> if c \<in> set cs then [] else [(Some c, r)])"
| "rmatch (Seq a b) = (\<lambda>p. concat (map (rmatch b) (rmatch a p)))"
| "rmatch (Alt a b) = (\<lambda>p. rmatch a p @ rmatch b p)"
| "rmatch (Opt a) = (\<lambda>p. rmatch a p @ [p])"
| "rmatch (Star a) = (\<lambda>p. star_greedy (length (snd p)) (rmatch a) p)"
| "rmatch (Lazy a) = (\<lambda>p. star_lazy (length (snd p)) (rmatch a) p)"
| "rmatch WordB = (\<lambda>p. if is_word (fst p) \<noteq> is_word (next_char (snd p)) then [p] else [])"
| "rmatch Bol = (\<lambda>p. if fst p = None then [p] else [])"
| "rmatch Eol = (\<lambda>p. if snd p = [] \<or> snd p = [CHR 0x0A] then [p] else [])"

definition seqs :: "regex list \<Rightarrow> regex" where
  "seqs rs = foldr Seq rs (Lit [])"

definition alts :: "string list \<Rightarrow> regex" where
  "alts ss = foldr (\<lambda>s r. Alt (Lit s) r) ss (Cls [])"

text \<open>A pattern of the shape \<open>\b(w1|w2|...)\b\<close>.\<close>

definition word_pattern :: "string list \<Rightarrow> regex" where
  "word_pattern ws = Seq WordB (Seq (alts ws) WordB)"

text \<open>\<open>re.match(r, s)\<close> and \<open>re.search(r, s)\<close>, as truth values.\<close>

definition re_match :: "regex \<Rightarrow> string \<Rightarrow> bool" where
  "re_match r s = (rmatch r (None, s) \<noteq> [])"

fun search_from :: "regex \<Rightarrow> char option \<Rightarrow> string \<Rightarrow> bool" where
  "search_from r prev [] = (rmatch r (prev, []) \<noteq> [])"
| "search_from r prev (c # cs) = (rmatch r (prev, c # cs) \<noteq> [] \<or> search_from r (Some c) cs)"

definition re_search :: "regex \<Rightarrow> string \<Rightarrow> bool" where
  "re_search r s = search_from r None s"

section \<open>Quality assurance layer (\<open>src/core/quality_assurance.py\<close>)\<close>

datatype ValidationLevel = STRICT | MODERATE | LENIENT

datatype JobQuality = EXCELLENT | GOOD | FAIR | POOR | INVALID

text \<open>
  The diagnostic messages, one constructor for each message text of the source; a
  message built with an f-string carries the value that the f-string inserts.
\<close>

datatype message =
    MissingRequiredField string
  | TitleRequired
  | TitleTooShort nat
  | TitleSpamWords regex
  | TitleNotRealistic
  | CompanyRequired
  | CompanyTooShort nat
  | CompanyGenericTerms
  | LocationNotSpecified
  | LocationNotValid
  | SummaryNotProvided
  | SummaryTooShort nat
  | SummaryTooBrief
  | UrlRequired
  | UrlNotProvided
  | UrlInvalidFormat
  | UrlSuspiciousDomain
  | SalaryNotRealistic
  | SpamIndicator regex
  | ExcessiveCapitalization
  | SuggestDescription
  | SuggestUrl
  | SuggestSalary
  | SuggestRequirements
  | SuggestSummary

record ValidationResult =
  is_valid :: bool
  quality_score :: rat
  quality_level :: JobQuality
  issues :: "message list"
  warnings :: "message list"
  suggestions :: "message list"

text \<open>The dict that \<open>_validate_jobs\<close> stores under \<open>validation_metadata\<close>.\<close>

record validation_metadata =
  vm_quality_score :: rat
  vm_quality_level :: JobQuality
  vm_warnings :: "message list"
  vm_suggestions :: "message list"

text \<open>
  A job listing: the dict keys that the validator and the deduplicator read, each a
  string when present, \<open>None\<close> when the key is absent. Of \<open>requirements\<close> only the
  truth value is read.
\<close>

record job =
  title :: "string option"
  company :: "string option"
  location :: "string option"
  summary :: "string option"
  url :: "string option"
  salary :: "string option"
  requirements :: "string option"
  source :: "string option"
  validation_metadata :: "validation_metadata option"

subsection \<open>JobValidator\<close>

record thresholds =
  min_title_length :: nat
  min_company_length :: nat
  min_summary_length :: nat
  min_quality_score :: rat
  require_url :: bool
  require_salary :: bool

fun level_thresholds :: "ValidationLevel \<Rightarrow> thresholds" where
  "level_thresholds STRICT =
     \<lparr> min_title_length = 5, min_company_length = 2, min_summary_length = 20,
       min_quality_score = 7 / 10, require_url = True, require_salary = False \<rparr>"
| "level_thresholds MODERATE =
     \<lparr> min_title_length = 3, min_company_length = 2, min_summary_length = 10,
       min_quality_score = 5 / 10, require_url = False, require_salary = False \<rparr>"
| "level_thresholds LENIENT =
     \<lparr> min_title_length = 2, min_company_length = 1, min_summary_length = 5,
       min_quality_score = 3 / 10, require_url = False, require_salary = False \<rparr>"

definition required_fields :: "(string \<times> (job \<Rightarrow> string option)) list" where
  "required_fields =
     [(''title'', title), (''company'', company), (''location'', location), (''summary'', summary)]"

text \<open>
  Each \<open>_validate_...\<close> method returns its score and appends to the two message lists;
  here it returns the score, the issues and the warnings it adds.
\<close>

type_synonym verdict = "rat \<times> message list \<times> message list"

text \<open>The loop over the required fields of \<open>validate_job\<close>.\<close>

definition check_required_fields :: "job \<Rightarrow> rat \<times> message list" where
  "check_required_fields j =
     fold (\<lambda>(name, field) (score, iss).
             if \<not> truthy (field j) then (score - 2 / 10, iss @ [MissingRequiredField name])
             else (score + 1 / 10, iss))
       required_fields (0, [])"

definition title_spam_patterns :: "regex list" where
  "title_spam_patterns =
     [word_pattern [''urgent'', ''immediate'', ''quick'', ''fast'', ''easy'', ''simple'', ''basic''],
      word_pattern [''work from home'', ''wfh'', ''online'', ''internet'', ''computer''],
      word_pattern [''earn'', ''money'', ''income'', ''salary'', ''pay'', ''profit''],
      word_pattern [''click'', ''visit'', ''call'', ''email'', ''apply now'']]"

definition valid_titles :: "string list" where
  "valid_titles =
     [''developer'', ''engineer'', ''manager'', ''analyst'', ''designer'',
      ''specialist'', ''coordinator'', ''assistant'', ''consultant'', ''lead'',
      ''architect'', ''scientist'', ''researcher'', ''administrator'']"

definition validate_title :: "string \<Rightarrow> thresholds \<Rightarrow> verdict" where
  "validate_title t0 th =
     (if t0 = [] then (- (2 / 10), [TitleRequired], [])
      else
        (let t = strip t0;
             short = (length t < min_title_length th);
             hits = filter (\<lambda>p. re_search p (lower t)) title_spam_patterns;
             unreal = (\<not> list_ex (\<lambda>v. contains v (lower t)) valid_titles)
         in ((if short then - (1 / 10) else 0) - of_nat (length hits) * (5 / 100)
               - (if unreal then 5 / 100 else 0),
             (if short then [TitleTooShort (min_title_length th)] else []),
             map TitleSpamWords hits @ (if unreal then [TitleNotRealistic] else []))))"

definition company_spam_patterns :: "regex list" where
  "company_spam_patterns =
     [word_pattern [''company'', ''corp'', ''inc'', ''ltd'', ''llc'', ''group'', ''tech'',
                    ''software'', ''solutions''],
      word_pattern [''online'', ''internet'', ''digital'', ''virtual'', ''remote'']]"

definition validate_company :: "string \<Rightarrow> thresholds \<Rightarrow> verdict" where
  "validate_company c0 th =
     (if c0 = [] then (- (2 / 10), [CompanyRequired], [])
      else
        (let c = strip c0;
             short = (length c < min_company_length th);
             spam_count = length (filter (\<lambda>p. re_search p (lower c)) company_spam_patterns);
             generic = (spam_count \<ge> 2)
         in ((if short then - (1 / 10) else 0) - (if generic then 5 / 100 else 0),
             (if short then [CompanyTooShort (min_company_length th)] else []),
             (if generic then [CompanyGenericTerms] else []))))"

definition valid_location_patterns :: "regex list" where
  "valid_location_patterns =
     [word_pattern [''dhaka'', ''chittagong'', ''sylhet'', ''rajshahi'', ''khulna'', ''barisal'',
                    ''rangpur'', ''mymensingh''],
      word_pattern [''bangladesh'', ''bd''],
      word_pattern [''remote'', ''work from home'', ''wfh'', ''online''],
      word_pattern [''gulshan'', ''banani'', ''uttara'', ''dhanmondi'', ''mirpur'']]"

definition validate_location :: "string \<Rightarrow> verdict" where
  "validate_location l0 =
     (if l0 = [] then (- (5 / 100), [], [LocationNotSpecified])
      else
        (let l = strip l0
         in if \<not> list_ex (\<lambda>p. re_search p (lower l)) valid_location_patterns
            then (- (5 / 100), [], [LocationNotValid])
            else (0, [], [])))"

definition validate_summary :: "string \<Rightarrow> thresholds \<Rightarrow> verdict" where
  "validate_summary s0 th =
     (if s0 = [] then (- (5 / 100), [], [SummaryNotProvided])
      else
        (let s = strip s0;
             short = (length s < min_summary_length th);
             brief = (length (split_ws s) < 5)
         in ((if short then - (1 / 10) else 0) - (if brief then 5 / 100 else 0),
             (if short then [SummaryTooShort (min_summary_length th)] else []),
             (if brief then [SummaryTooBrief] else []))))"

text \<open>The pattern \<open>^https?://[^\s/$.?#].[^\s]*$\<close>.\<close>

definition url_pattern :: regex where
  "url_pattern =
     seqs [Bol, Lit ''http'', Opt (Lit ''s''), Lit ''://'', NCls (whitespace @ ''/$.?#''),
           NCls [CHR 0x0A], Star (NCls whitespace), Eol]"

definition suspicious_domains :: "string list" where
  "suspicious_domains = [''bit.ly'', ''tinyurl'', ''goo.gl'', ''t.co'']"

definition validate_url :: "string \<Rightarrow> thresholds \<Rightarrow> verdict" where
  "validate_url u th =
     (if u = [] then
        (if require_url th then (- (2 / 10), [UrlRequired], [])
         else (- (5 / 100), [], [UrlNotProvided]))
      else
        (let bad = (\<not> re_match url_pattern u);
             susp = list_ex (\<lambda>d. contains d (lower u)) suspicious_domains
         in ((if bad then - (1 / 10) else 0) - (if susp then 5 / 100 else 0),
             (if bad then [UrlInvalidFormat] else []),
             (if susp then [UrlSuspiciousDomain] else []))))"

text \<open>
  The patterns \<open>\b\d{1,3}(?:,\d{3})*(?:k|k\+|taka|bdt)\b\<close> and
  \<open>\b(negotiable|competitive|market rate|as per company policy)\b\<close>.
\<close>

definition salary_patterns :: "regex list" where
  "salary_patterns =
     [seqs [WordB, Cls digits, Opt (Cls digits), Opt (Cls digits),
            Star (seqs [Lit '','', Cls digits, Cls digits, Cls digits]),
            alts [''k'', ''k+'', ''taka'', ''bdt''], WordB],
      word_pattern [''negotiable'', ''competitive'', ''market rate'', ''as per company policy'']]"

definition validate_salary :: "string \<Rightarrow> verdict" where
  "validate_salary s =
     (if s = [] then (0, [], [])
      else if \<not> list_ex (\<lambda>p. re_search p (lower s)) salary_patterns
      then (- (2 / 100), [], [SalaryNotRealistic])
      else (0, [], []))"

definition spam_indicators :: "regex list" where
  "spam_indicators =
     [word_pattern [''earn money'', ''make money'', ''quick money'', ''easy money''],
      word_pattern [''work from home'', ''wfh'', ''online job'', ''internet job''],
      word_pattern [''click'', ''visit'', ''call'', ''email'', ''apply now'', ''urgent''],
      word_pattern [''no experience'', ''no skills'', ''anyone can do''],
      word_pattern [''part time'', ''flexible hours'', ''own schedule'']]"

text \<open>
  \<open>_detect_spam\<close>: the spam score and the warnings it adds. The text always holds the
  blank between title and summary, so the division is by a positive length.
\<close>

definition detect_spam :: "job \<Rightarrow> rat \<times> message list" where
  "detect_spam j =
     (let text = lower (get_str (title j) @ '' '' @ get_str (summary j));
          hits = filter (\<lambda>p. re_search p text) spam_indicators;
          caps = (of_nat (length (filter is_upper text)) / of_nat (length text) > (3 / 10 :: rat))
      in (of_nat (length hits) * (1 / 10) + (if caps then 5 / 100 else 0),
          map SpamIndicator hits @ (if caps then [ExcessiveCapitalization] else [])))"

definition determine_quality_level :: "rat \<Rightarrow> JobQuality" where
  "determine_quality_level score =
     (if score \<ge> 8 / 10 then EXCELLENT
      else if score \<ge> 6 / 10 then GOOD
      else if score \<ge> 4 / 10 then FAIR
      else if score \<ge> 2 / 10 then POOR
      else INVALID)"

definition generate_suggestions :: "job \<Rightarrow> rat \<Rightarrow> message list" where
  "generate_suggestions j score =
     (if score < 6 / 10 then [SuggestDescription] else []) @
     (if \<not> truthy (url j) then [SuggestUrl] else []) @
     (if \<not> truthy (salary j) then [SuggestSalary] else []) @
     (if \<not> truthy (requirements j) then [SuggestRequirements] else []) @
     (if length (get_str (summary j)) < 50 then [SuggestSummary] else [])"

text \<open>The score of \<open>validate_job\<close> before it is clamped to the range from 0 to 1.\<close>

definition raw_score :: "ValidationLevel \<Rightarrow> job \<Rightarrow> rat" where
  "raw_score lvl j =
     (let th = level_thresholds lvl
      in fst (check_required_fields j)
         + fst (validate_title (get_str (title j)) th)
         + fst (validate_company (get_str (company j)) th)
         + fst (validate_location (get_str (location j)))
         + fst (validate_summary (get_str (summary j)) th)
         + fst (validate_url (get_str (url j)) th)
         + fst (validate_salary (get_str (salary j)))
         - fst (detect_spam j))"

definition validate_job :: "ValidationLevel \<Rightarrow> job \<Rightarrow> ValidationResult" where
  "validate_job lvl j =
     (let th = level_thresholds lvl;
          vt = validate_title (get_str (title j)) th;
          vc = validate_company (get_str (company j)) th;
          vl = validate_location (get_str (location j));
          vs = validate_summary (get_str (summary j)) th;
          vu = validate_url (get_str (url j)) th;
          va = validate_salary (get_str (salary j));
          score = max 0 (min 1 (raw_score lvl j))
      in \<lparr> is_valid = (score \<ge> min_quality_score th),
           quality_score = score,
           quality_level = determine_quality_level score,
           issues = snd (check_required_fields j) @ fst (snd vt) @ fst (snd vc) @ fst (snd vl)
                      @ fst (snd vs) @ fst (snd vu) @ fst (snd va),
           warnings = snd (snd vt) @ snd (snd vc) @ snd (snd vl) @ snd (snd vs) @ snd (snd vu)
                        @ snd (snd va) @ snd (detect_spam j),
           suggestions = generate_suggestions j score \<rparr>)"

subsection \<open>The validation stage of QualityAssuranceLayer\<close>

text \<open>
  \<open>_validate_jobs\<close>: a job is kept, with its metadata attached, when its quality score
  is at least the literal \<open>0.3\<close>.
\<close>

definition validate_jobs :: "ValidationLevel \<Rightarrow> job list \<Rightarrow> job list" where
  "validate_jobs lvl jobs =
     concat (map (\<lambda>j.
        (let r = validate_job lvl j
         in if quality_score r \<ge> 3 / 10
            then [j\<lparr> validation_metadata :=
                      Some \<lparr> vm_quality_score = quality_score r,
                             vm_quality_level = quality_level r,
                             vm_warnings = warnings r,
                             vm_suggestions = suggestions r \<rparr> \<rparr>]
            else [])) jobs)"

subsection \<open>MD5 (\<open>hashlib.md5(...).hexdigest()\<close>)\<close>

text \<open>
  The digest of RFC 1321 on a string of ASCII characters, whose UTF-8 encoding is one
  byte for each character.
\<close>

definition md5_shifts :: "nat list" where
  "md5_shifts =
     [7, 12, 17, 22, 7, 12, 17, 22, 7, 12, 17, 22, 7, 12, 17, 22,
      5, 9, 14, 20, 5, 9, 14, 20, 5, 9, 14, 20, 5, 9, 14, 20,
      4, 11, 16, 23, 4, 11, 16, 23, 4, 11, 16, 23, 4, 11, 16, 23,
      6, 10, 15, 21, 6, 10, 15, 21, 6, 10, 15, 21, 6, 10, 15, 21]"

definition md5_table :: "32 word list" where
  "md5_table =
     [0xd76aa478, 0xe8c7b756, 0x242070db, 0xc1bdceee, 0xf57c0faf, 0x4787c62a, 0xa8304613, 0xfd469501,
      0x698098d8, 0x8b44f7af, 0xffff5bb1, 0x895cd7be, 0x6b901122, 0xfd987193, 0xa679438e, 0x49b40821,
      0xf61e2562, 0xc040b340, 0x265e5a51, 0xe9b6c7aa, 0xd62f105d, 0x02441453, 0xd8a1e681, 0xe7d3fbc8,
      0x21e1cde6, 0xc33707d6, 0xf4d50d87, 0x455a14ed, 0xa9e3e905, 0xfcefa3f8, 0x676f02d9, 0x8d2a4c8a,
      0xfffa3942, 0x8771f681, 0x6d9d6122, 0xfde5380c, 0xa4beea44, 0x4bdecfa9, 0xf6bb4b60, 0xbebfbc70,
      0x289b7ec6, 0xeaa127fa, 0xd4ef3085, 0x04881d05, 0xd9d4d039, 0xe6db99e5, 0x1fa27cf8, 0xc4ac5665,
      0xf4292244, 0x432aff97, 0xab9423a7, 0xfc93a039, 0x655b59c3, 0x8f0ccc92, 0xffeff47d, 0x85845dd1,
      0x6fa87e4f, 0xfe2ce6e0, 0xa3014314, 0x4e0811a1, 0xf7537e82, 0xbd3af235, 0x2ad7d2bb, 0xeb86d391]"

text \<open>The \<open>n\<close> low bytes of a number, the lowest first.\<close>

fun le_bytes :: "nat \<Rightarrow> int \<Rightarrow> int list" where
  "le_bytes 0 v = []"
| "le_bytes (Suc n) v = v mod 256 # le_bytes n (v div 256)"

text \<open>
  Padding: the message bytes, the byte 0x80, zero bytes up to 56 modulo 64, and the
  length of the message in bits as 8 bytes.
\<close>

definition md5_pad :: "int list \<Rightarrow> int list" where
  "md5_pad bs =
     bs @ [128] @ replicate ((119 - length bs mod 64) mod 64) 0
        @ le_bytes 8 (8 * int (length bs))"

fun chunks :: "nat \<Rightarrow> nat \<Rightarrow> 'a list \<Rightarrow> 'a list list" where
  "chunks 0 n xs = []"
| "chunks (Suc k) n xs = take n xs # chunks k n (drop n xs)"

definition le_word :: "int list \<Rightarrow> 32 word" where
  "le_word bs = word_of_int (foldr (\<lambda>b v. b + 256 * v) bs 0)"

type_synonym md5_state = "32 word \<times> 32 word \<times> 32 word \<times> 32 word"

definition md5_round :: "32 word list \<Rightarrow> md5_state \<Rightarrow> nat \<Rightarrow> md5_state" where
  "md5_round m st i =
     (case st of (a, b, c, d) \<Rightarrow>
        (let (f, g) =
               (if i < 16 then (or (and b c) (and (not b) d), i)
                else if i < 32 then (or (and d b) (and (not d) c), (5 * i + 1) mod 16)
                else if i < 48 then (xor (xor b c) d, (3 * i + 5) mod 16)
                else (xor c (or b (not d)), (7 * i) mod 16));
             f' = f + a + md5_table ! i + m ! g
         in (d, b + word_rotl (md5_shifts ! i) f', b, c)))"

definition md5_block :: "md5_state \<Rightarrow> int list \<Rightarrow> md5_state" where
  "md5_block st block =
     (let m = map le_word (chunks 16 4 block)
      in case (st, foldl (md5_round m) st [0 ..< 64]) of
           ((a0, b0, c0, d0), (a, b, c, d)) \<Rightarrow> (a0 + a, b0 + b, c0 + c, d0 + d))"

definition hex_byte :: "int \<Rightarrow> string" where
  "hex_byte b =
     [''0123456789abcdef'' ! nat (b div 16), ''0123456789abcdef'' ! nat (b mod 16)]"

definition md5_hexdigest :: "string \<Rightarrow> string" where
  "md5_hexdigest s =
     (let bs = md5_pad (map of_char s);
          st = foldl md5_block (0x67452301, 0xefcdab89, 0x98badcfe, 0x10325476)
                 (chunks (length bs div 64) 64 bs)
      in case st of (a, b, c, d) \<Rightarrow>
           concat (map hex_byte (concat (map (\<lambda>w. le_bytes 4 (uint w)) [a, b, c, d]))))"

subsection \<open>Substitution (\<open>re.sub\<close>)\<close>

text \<open>
  \<open>re.sub(r, repl, s)\<close> for a pattern that matches no empty string, as all patterns of
  the deduplicator do: at each position the matcher's preferred match is replaced and
  the scan goes on behind it; where nothing matches, the character is copied.
\<close>

function sub_from :: "regex \<Rightarrow> string \<Rightarrow> char option \<Rightarrow> string \<Rightarrow> string" where
  "sub_from r repl prev s =
     (case filter (\<lambda>q. length (snd q) < length s) (rmatch r (prev, s)) of
        q # _ \<Rightarrow> repl @ sub_from r repl (fst q) (snd q)
      | [] \<Rightarrow> (case s of [] \<Rightarrow> [] | c # cs \<Rightarrow> c # sub_from r repl (Some c) cs))"
  by pat_completeness auto
termination
proof (relation "measure (\<lambda>(r, repl, prev, s). length s)")
  show "wf (measure (\<lambda>(r, repl, prev, s). length s))" by simp
next
  fix r :: regex and repl :: string and prev :: "char option" and s :: string
    and q :: position and qs :: "position list"
  assume "filter (\<lambda>q. length (snd q) < length s) (rmatch r (prev, s)) = q # qs"
  then have "q \<in> set (filter (\<lambda>q. length (snd q) < length s) (rmatch r (prev, s)))"
    by simp
  then show "((r, repl, fst q, snd q), (r, repl, prev, s))
      \<in> measure (\<lambda>(r, repl, prev, s). length s)"
    by (simp add: case_prod_beta)
next
  fix r :: regex and repl :: string and prev :: "char option" and s :: string
    and c :: char and cs :: string
  assume "s = c # cs"
  then show "((r, repl, Some c, cs), (r, repl, prev, s))
      \<in> measure (\<lambda>(r, repl, prev, s). length s)"
    by simp
qed

definition re_sub :: "regex \<Rightarrow> string \<Rightarrow> string \<Rightarrow> string" where
  "re_sub r repl s = sub_from r repl None s"

subsection \<open>\<open>difflib.SequenceMatcher(None, a, b).ratio()\<close>\<close>

text \<open>
  With \<open>isjunk = None\<close> the matcher has no junk; its \<open>autojunk\<close> heuristic drops from
  the index of \<open>b\<close> the elements that occur more than \<open>len(b) // 100 + 1\<close> times when
  \<open>b\<close> has at least 200 elements.
\<close>

definition popular_chars :: "string \<Rightarrow> string" where
  "popular_chars b =
     (if 200 \<le> length b
      then filter (\<lambda>c. length b div 100 + 1 < count_list b c) (remdups b)
      else [])"

text \<open>
  \<open>find_longest_match\<close> on the slices \<open>a[alo:ahi]\<close> and \<open>b[blo:bhi]\<close>. A row holds, for
  each \<open>j\<close>, the length of the common run of indexed elements that ends at \<open>(i, j)\<close>
  (the dict \<open>j2len\<close>); the best block is replaced only by a strictly longer one.
\<close>

definition next_row :: "string \<Rightarrow> char \<Rightarrow> string \<Rightarrow> nat list \<Rightarrow> nat list" where
  "next_row pop x b prev =
     map (\<lambda>(y, k). if x = y \<and> y \<notin> set pop then Suc k else 0) (zip b (0 # prev))"

type_synonym block = "nat \<times> nat \<times> nat"

fun scan_row :: "nat \<Rightarrow> nat \<Rightarrow> nat list \<Rightarrow> block \<Rightarrow> block" where
  "scan_row i j [] best = best"
| "scan_row i j (k # ks) (bi, bj, bs) =
     scan_row i (Suc j) ks (if bs < k then (i + 1 - k, j + 1 - k, k) else (bi, bj, bs))"

fun longest_run :: "string \<Rightarrow> nat \<Rightarrow> string \<Rightarrow> string \<Rightarrow> nat list \<Rightarrow> block \<Rightarrow> block" where
  "longest_run pop i [] b prev best = best"
| "longest_run pop i (x # xs) b prev best =
     (let row = next_row pop x b prev
      in longest_run pop (Suc i) xs b row (scan_row i 0 row best))"

text \<open>The number of leading positions at which two lists agree.\<close>

definition common_prefix :: "'a list \<Rightarrow> 'a list \<Rightarrow> nat" where
  "common_prefix xs ys = length (takeWhile (\<lambda>(x, y). x = y) (zip xs ys))"

text \<open>
  The two loops that extend the best block to the left and to the right by equal
  elements follow; the loops over junk elements never run.
\<close>

definition find_longest_match :: "string \<Rightarrow> string \<Rightarrow> string \<Rightarrow> block" where
  "find_longest_match pop a b =
     (case longest_run pop 0 a b (replicate (length b) 0) (0, 0, 0) of
        (bi, bj, bs) \<Rightarrow>
          (let l = common_prefix (rev (take bi a)) (rev (take bj b));
               bi' = bi - l; bj' = bj - l; bs' = bs + l;
               r = common_prefix (drop (bi' + bs') a) (drop (bj' + bs') b)
           in (bi', bj', bs' + r)))"

text \<open>
  The total size of the matching blocks: the longest block, then the same to its left
  and to its right. Each slice of \<open>a\<close> is shorter than the one before, so a depth of
  \<open>len(a)\<close> is never exceeded.
\<close>

fun matching_size :: "nat \<Rightarrow> string \<Rightarrow> string \<Rightarrow> string \<Rightarrow> nat" where
  "matching_size 0 pop a b = 0"
| "matching_size (Suc n) pop a b =
     (case find_longest_match pop a b of
        (i, j, k) \<Rightarrow>
          if k = 0 then 0
          else k
            + (if 0 < i \<and> 0 < j then matching_size n pop (take i a) (take j b) else 0)
            + (if i + k < length a \<and> j + k < length b
               then matching_size n pop (drop (i + k) a) (drop (j + k) b) else 0))"

definition ratio :: "string \<Rightarrow> string \<Rightarrow> rat" where
  "ratio a b =
     (if length a + length b = 0 then 1
      else 2 * of_nat (matching_size (length a) (popular_chars b) a b)
             / of_nat (length a + length b))"

subsection \<open>JobDeduplicator\<close>

record DeduplicationResult =
  unique_jobs :: "job list"
  duplicates_removed :: int
  duplicate_groups :: "nat list list"

text \<open>The patterns \<open>\s+\<close>, \<open>\s*-\s*(for|job id|job-id).*$\<close>, \<open>\s*\(for\s+.*?\)\<close>,
  \<open>\.com$\<close> and \<open>bdjobs\.com\<close>, the last four under \<open>re.IGNORECASE\<close>.\<close>

definition spaces_pattern :: regex where
  "spaces_pattern = Seq (Cls whitespace) (Star (Cls whitespace))"

definition suffix_pattern :: regex where
  "suffix_pattern =
     seqs [Star (Cls whitespace), LitI ''-'', Star (Cls whitespace),
           Alt (LitI ''for'') (Alt (LitI ''job id'') (LitI ''job-id'')),
           Star (NCls [CHR 0x0A]), Eol]"

definition for_pattern :: regex where
  "for_pattern =
     seqs [Star (Cls whitespace), LitI ''('', LitI ''for'',
           Cls whitespace, Star (Cls whitespace), Lazy (NCls [CHR 0x0A]), LitI '')'']"

definition dot_com_pattern :: regex where
  "dot_com_pattern = Seq (LitI ''.com'') Eol"

definition bdjobs_pattern :: regex where
  "bdjobs_pattern = LitI ''bdjobs.com''"

text \<open>\<open>sep.join(parts)\<close>.\<close>

fun join :: "string \<Rightarrow> string list \<Rightarrow> string" where
  "join sep [] = []"
| "join sep [p] = p"
| "join sep (p # q # ps) = p @ sep @ join sep (q # ps)"

definition generate_fingerprint :: "job \<Rightarrow> string" where
  "generate_fingerprint j =
     (let t0 = strip (lower (get_str (title j)));
          c0 = strip (lower (get_str (company j)));
          l0 = strip (lower (get_str (location j)));
          t1 = re_sub spaces_pattern '' '' t0;
          t2 = re_sub suffix_pattern [] t1;
          t3 = re_sub for_pattern [] t2;
          c1 = re_sub spaces_pattern '' '' c0;
          c2 = re_sub dot_com_pattern [] c1;
          c3 = re_sub bdjobs_pattern [] c2;
          l1 = re_sub spaces_pattern '' '' l0;
          fingerprint = join ''|'' (filter (\<lambda>p. p \<noteq> []) [t3, c3, l1])
      in md5_hexdigest fingerprint)"

definition normalize_title :: "string \<Rightarrow> string" where
  "normalize_title t =
     re_sub spaces_pattern '' ''
       (re_sub for_pattern [] (re_sub suffix_pattern [] (strip (lower t))))"

definition normalize_company :: "string \<Rightarrow> string" where
  "normalize_company c =
     re_sub spaces_pattern '' ''
       (re_sub bdjobs_pattern [] (re_sub dot_com_pattern [] (strip (lower c))))"

definition calculate_similarity :: "job \<Rightarrow> job \<Rightarrow> rat" where
  "calculate_similarity job1 job2 =
     (let title_similarity =
            ratio (normalize_title (get_str (title job1))) (normalize_title (get_str (title job2)));
          company_similarity =
            ratio (normalize_company (get_str (company job1)))
              (normalize_company (get_str (company job2)));
          location_similarity =
            ratio (lower (get_str (location job1))) (lower (get_str (location job2)))
      in title_similarity * (6 / 10) + company_similarity * (3 / 10)
           + location_similarity * (1 / 10))"

text \<open>
  \<open>_find_exact_duplicates\<close>: \<open>fingerprint_groups\<close> is a dict of lists, kept here in the
  order in which its keys were first seen.
\<close>

fun group_append :: "'k \<Rightarrow> nat \<Rightarrow> ('k \<times> nat list) list \<Rightarrow> ('k \<times> nat list) list" where
  "group_append k i [] = [(k, [i])]"
| "group_append k i ((k', g) # gs) =
     (if k = k' then (k', g @ [i]) # gs else (k', g) # group_append k i gs)"

definition fingerprint_groups :: "(nat \<times> string \<times> job) list \<Rightarrow> (string \<times> nat list) list" where
  "fingerprint_groups fps = foldl (\<lambda>gs (i, fp, j). group_append fp i gs) [] fps"

definition find_exact_duplicates :: "(nat \<times> string \<times> job) list \<Rightarrow> nat list list" where
  "find_exact_duplicates fps =
     filter (\<lambda>g. 1 < length g) (map snd (fingerprint_groups fps))"

text \<open>
  \<open>_find_fuzzy_duplicates\<close>. The inner loop runs over the entries behind the current
  one and carries the current group and the set of processed indices; the outer loop
  carries the groups found and the processed indices. Entry \<open>i\<close> of the list is the
  triple \<open>(i, fingerprint, job)\<close>, so a loop over the list is the loop over the indices.
\<close>

fun compare_rest ::
  "rat \<Rightarrow> job \<Rightarrow> (nat \<times> string \<times> job) list \<Rightarrow> nat list \<times> nat set \<Rightarrow> nat list \<times> nat set" where
  "compare_rest th cur [] (grp, processed) = (grp, processed)"
| "compare_rest th cur ((j, fp, other) # rest) (grp, processed) =
     (if j \<in> processed then compare_rest th cur rest (grp, processed)
      else if th \<le> calculate_similarity cur other
        then compare_rest th cur rest (grp @ [j], insert j processed)
      else compare_rest th cur rest (grp, processed))"

fun fuzzy_loop ::
  "rat \<Rightarrow> (nat \<times> string \<times> job) list \<Rightarrow> nat list list \<times> nat set \<Rightarrow> nat list list" where
  "fuzzy_loop th [] (groups, processed) = groups"
| "fuzzy_loop th ((i, fp, cur) # rest) (groups, processed) =
     (if i \<in> processed then fuzzy_loop th rest (groups, processed)
      else
        (case compare_rest th cur rest ([i], processed) of
           (grp, processed') \<Rightarrow>
             if 1 < length grp
             then fuzzy_loop th rest (groups @ [grp], processed' \<union> set grp)
             else fuzzy_loop th rest (groups, processed')))"

definition find_fuzzy_duplicates ::
  "rat \<Rightarrow> (nat \<times> string \<times> job) list \<Rightarrow> nat list list \<Rightarrow> nat list list" where
  "find_fuzzy_duplicates th fps exact_duplicates =
     fuzzy_loop th fps ([], \<Union> (set (map set exact_duplicates)))"

definition calculate_job_quality_score :: "job \<Rightarrow> rat" where
  "calculate_job_quality_score j =
     (let completeness =
            of_nat (length (filter truthy
              [title j, company j, location j, summary j, url j, salary j, requirements j])) / 7
      in completeness * (4 / 10)
         + (if 10 < length (get_str (title j)) then 2 / 10 else 0)
         + (if 50 < length (get_str (summary j)) then 2 / 10 else 0)
         + (if truthy (url j) then 1 / 10 else 0)
         + (if truthy (salary j) then 1 / 10 else 0))"

text \<open>\<open>s.split(sep)[0]\<close>: the text before the first occurrence of \<open>sep\<close>.\<close>

fun before_sep :: "string \<Rightarrow> string \<Rightarrow> string" where
  "before_sep sep [] = []"
| "before_sep sep (c # cs) = (if prefix sep (c # cs) then [] else c # before_sep sep cs)"

definition source_priority :: "(string \<times> rat) list" where
  "source_priority =
     [(''BDJobs'', 1), (''LinkedIn'', 2), (''LinkedIn (Fast Scraper)'', 2), (''Indeed'', 3),
      (''Web Search'', 4)]"

definition final_score :: "job \<Rightarrow> rat" where
  "final_score j =
     (let base_score = calculate_job_quality_score j;
          src = before_sep '' ('' (get_str (source j));
          priority_bonus = (case map_of source_priority src of None \<Rightarrow> 5 | Some p \<Rightarrow> p)
      in base_score + 1 / priority_bonus)"

text \<open>
  \<open>_select_best_job_from_group\<close>: \<open>group[0]\<close> of an empty group and \<open>jobs[index]\<close> beyond
  the list raise \<open>IndexError\<close>.
\<close>

fun best_loop :: "job list \<Rightarrow> nat list \<Rightarrow> rat \<times> nat \<Rightarrow> py_error + nat" where
  "best_loop jobs [] (best_score, best_index) = Inr best_index"
| "best_loop jobs (i # rest) (best_score, best_index) =
     (if i < length jobs
      then (if best_score < final_score (jobs ! i)
            then best_loop jobs rest (final_score (jobs ! i), i)
            else best_loop jobs rest (best_score, best_index))
      else Inl IndexError)"

definition select_best_job_from_group :: "job list \<Rightarrow> nat list \<Rightarrow> py_error + nat" where
  "select_best_job_from_group jobs grp =
     (case grp of [] \<Rightarrow> Inl IndexError | g # _ \<Rightarrow> best_loop jobs grp (- 1, g))"

fun best_of_groups :: "job list \<Rightarrow> nat list list \<Rightarrow> nat set \<Rightarrow> py_error + nat set" where
  "best_of_groups jobs [] selected = Inr selected"
| "best_of_groups jobs (g # gs) selected =
     (case select_best_job_from_group jobs g of
        Inl e \<Rightarrow> Inl e
      | Inr b \<Rightarrow> best_of_groups jobs gs (insert b selected))"

text \<open>\<open>[xs[i] for i in idx]\<close>.\<close>

fun index_all :: "'a list \<Rightarrow> nat list \<Rightarrow> py_error + 'a list" where
  "index_all xs [] = Inr []"
| "index_all xs (i # rest) =
     (if i < length xs
      then (case index_all xs rest of Inl e \<Rightarrow> Inl e | Inr ys \<Rightarrow> Inr (xs ! i # ys))
      else Inl IndexError)"

definition add_ungrouped :: "nat list list \<Rightarrow> nat \<Rightarrow> nat set \<Rightarrow> nat set" where
  "add_ungrouped groups i selected =
     (if i \<notin> selected \<and> \<not> list_ex (\<lambda>g. i \<in> set g) groups then insert i selected
      else selected)"

definition select_best_jobs :: "job list \<Rightarrow> nat list list \<Rightarrow> py_error + job list" where
  "select_best_jobs jobs groups =
     (case best_of_groups jobs groups {} of
        Inl e \<Rightarrow> Inl e
      | Inr selected \<Rightarrow>
          index_all jobs
            (sorted_list_of_set (fold (add_ungrouped groups) [0 ..< length jobs] selected)))"

text \<open>
  \<open>deduplicate_jobs\<close> for a deduplicator with similarity threshold \<open>th\<close> (0.8 unless
  given). The statistics dict, which only counts, is left out.
\<close>

definition job_fingerprints :: "job list \<Rightarrow> (nat \<times> string \<times> job) list" where
  "job_fingerprints jobs =
     map (\<lambda>(i, j). (i, generate_fingerprint j, j)) (zip [0 ..< length jobs] jobs)"

definition deduplicate_jobs :: "rat \<Rightarrow> job list \<Rightarrow> py_error + DeduplicationResult" where
  "deduplicate_jobs th jobs =
     (if jobs = [] then Inr \<lparr> unique_jobs = [], duplicates_removed = 0, duplicate_groups = [] \<rparr>
      else
        (let fps = job_fingerprints jobs;
             exact_duplicates = find_exact_duplicates fps;
             fuzzy_duplicates = find_fuzzy_duplicates th fps exact_duplicates;
             all_duplicate_groups = exact_duplicates @ fuzzy_duplicates
         in case select_best_jobs jobs all_duplicate_groups of
              Inl e \<Rightarrow> Inl e
            | Inr unique \<Rightarrow>
                Inr \<lparr> unique_jobs = unique,
                      duplicates_removed = int (length jobs) - int (length unique),
                      duplicate_groups = all_duplicate_groups \<rparr>))"

section \<open>Sample listings and auxiliary notions\<close>

text \<open>Sample listings.\<close>

definition empty_job :: job where
  "empty_job =
     \<lparr> title = None, company = None, location = None, summary = None, url = None,
       salary = None, requirements = None, source = None, validation_metadata = None \<rparr>"

definition acme_job :: job where
  "acme_job =
     empty_job\<lparr> title := Some ''Software Engineer'', company := Some ''Acme'',
                location := Some ''Dhaka'', url := Some ''https://acme.com/jobs/1'' \<rparr>"

text \<open>A listing with title, company, summary and URL, without location.\<close>

definition no_location_job :: job where
  "no_location_job =
     empty_job\<lparr> title := Some ''Software Engineer'', company := Some ''Acme'',
                summary := Some ''We are hiring a skilled software engineer'',
                url := Some ''https://acme.com/jobs/1'' \<rparr>"

text \<open>What one pass of the loop over the required fields adds to the score.\<close>

definition field_score :: "string option \<Rightarrow> rat" where
  "field_score v = (if truthy v then 1 / 10 else - (2 / 10))"

definition chittagong_job :: job where
  "chittagong_job = acme_job\<lparr> location := Some ''Chittagong'' \<rparr>"

definition designer_job :: job where
  "designer_job =
     empty_job\<lparr> title := Some ''Graphic Designer'', company := Some ''PixelWorks'',
                location := Some ''Sylhet'' \<rparr>"

text \<open>The indices of the entries with fingerprint \<open>k\<close>, in their order.\<close>

definition hits :: "string \<Rightarrow> (nat \<times> string \<times> job) list \<Rightarrow> nat list" where
  "hits k fps = map fst (filter (\<lambda>e. fst (snd e) = k) fps)"

text \<open>The indices below \<open>n\<close> that are in no group.\<close>

definition ungrouped :: "nat list list \<Rightarrow> nat \<Rightarrow> nat set" where
  "ungrouped groups n = {i. i < n \<and> i \<notin> set (concat groups)}"

text \<open>The groups of a run: the exact ones, then the fuzzy ones.\<close>

definition groups_of :: "rat \<Rightarrow> job list \<Rightarrow> nat list list" where
  "groups_of th jobs =
     find_exact_duplicates (job_fingerprints jobs)
       @ find_fuzzy_duplicates th (job_fingerprints jobs)
           (find_exact_duplicates (job_fingerprints jobs))"

section \<open>Properties of the source router\<close>

subsection \<open>What a call of \<open>record_request\<close> does to the tracker\<close>

lemma record_request_history:
  "history_of (snd (record_request t now sid ok rt jf)) sid =
     deque_append (history_size t) (history_of t sid)
       \<lparr> timestamp = now, success = ok, response_time = rt, jobs_found = jf \<rparr>"
  by (simp add: record_request_def Let_def update_metrics_def new_SourcePerformance_def
        history_of_def split: sum.splits)

lemma record_request_metrics_unchanged:
  "source_metrics (snd (record_request t now sid ok rt jf)) = source_metrics t"
  by (simp add: record_request_def Let_def update_metrics_def new_SourcePerformance_def
        history_of_def split: sum.splits)

lemma record_request_history_size:
  "history_size (snd (record_request t now sid ok rt jf)) = history_size t"
  by (simp add: record_request_def Let_def update_metrics_def new_SourcePerformance_def
        history_of_def split: sum.splits)

text \<open>
  The record is built without \<open>source_type\<close>, so with a window of positive size the
  constructor raises on every call.
\<close>

lemma record_request_raises:
  "0 < history_size t \<Longrightarrow> fst (record_request t now sid ok rt jf) = Some TypeError"
  by (cases "history_of t sid")
     (auto simp add: record_request_def Let_def update_metrics_def new_SourcePerformance_def
        history_of_def deque_append_def split: sum.splits)

lemma record_source_result_raises:
  assumes "0 < history_size (performance_tracker r)"
  shows "fst (record_source_result r now sid ok rt jf) = Some TypeError"
    and "source_metrics (performance_tracker (snd (record_source_result r now sid ok rt jf)))
           = source_metrics (performance_tracker r)"
    and "history_size (performance_tracker (snd (record_source_result r now sid ok rt jf)))
           = history_size (performance_tracker r)"
proof -
  obtain t' where rr:
    "record_request (performance_tracker r) now sid ok rt jf = (Some TypeError, t')"
    using record_request_raises [OF assms, of now sid ok rt jf]
    by (cases "record_request (performance_tracker r) now sid ok rt jf") auto
  have m: "source_metrics t' = source_metrics (performance_tracker r)"
    using record_request_metrics_unchanged [of "performance_tracker r" now sid ok rt jf] rr
    by simp
  have h: "history_size t' = history_size (performance_tracker r)"
    using record_request_history_size [of "performance_tracker r" now sid ok rt jf] rr
    by simp
  show "fst (record_source_result r now sid ok rt jf) = Some TypeError"
    by (simp add: record_source_result_def rr)
  show "source_metrics (performance_tracker (snd (record_source_result r now sid ok rt jf)))
           = source_metrics (performance_tracker r)"
    by (simp add: record_source_result_def rr m)
  show "history_size (performance_tracker (snd (record_source_result r now sid ok rt jf)))
           = history_size (performance_tracker r)"
    by (simp add: record_source_result_def rr h)
qed

lemma record_all_no_metrics:
  assumes "0 < history_size (performance_tracker r)"
  shows "source_metrics (performance_tracker (record_all r calls))
           = source_metrics (performance_tracker r)
       \<and> history_size (performance_tracker (record_all r calls))
           = history_size (performance_tracker r)"
  using assms
proof (induction calls arbitrary: r)
  case Nil
  then show ?case by (simp add: record_all_def)
next
  case (Cons c calls)
  obtain now sid ok rt jf where c: "c = (now, sid, ok, rt, jf)" by (cases c) auto
  let ?r1 = "snd (record_source_result r now sid ok rt jf)"
  have step: "record_all r (c # calls) = record_all ?r1 calls"
    by (simp add: record_all_def c)
  have h1: "0 < history_size (performance_tracker ?r1)"
    using record_source_result_raises(3) [OF Cons.prems] Cons.prems by simp
  from Cons.IH [OF h1] record_source_result_raises(2,3) [OF Cons.prems, of now sid ok rt jf]
  show ?case unfolding step by simp
qed

text \<open>
  Claim C1, as stated: every call of \<open>record_request\<close> succeeds and stores the response
  time clamped to \<open>max(0, response_time)\<close>. The code stores the response time it is
  given: after recording \<open>-2.5\<close> seconds on a fresh tracker the newest entry of the
  window holds \<open>-2.5\<close>, not \<open>0\<close>.
\<close>

theorem record_request_no_clamp_counterexample:
  "response_time (last (history_of (snd (record_request (new_PerformanceTracker 100) 0
        ''web_search'' True (- 5 / 2) 3)) ''web_search'')) \<noteq> max 0 (- 5 / 2)"
  unfolding record_request_history
  by (simp add: deque_append_def new_PerformanceTracker_def history_of_def)

text \<open>
  Claim C1, amended: for every tracker with a window of 100 entries and every call of
  \<open>record_request\<close>, the entry is appended to that source's rolling window with the
  response time as given (no clamping), the oldest entry being evicted when the window
  already holds 100; the window never exceeds 100 entries.
\<close>

theorem record_request_window:
  assumes "history_size t = 100" and "length (history_of t sid) \<le> 100"
  shows "history_of (snd (record_request t now sid ok rt jf)) sid =
           (if length (history_of t sid) = 100 then tl (history_of t sid) else history_of t sid)
             @ [\<lparr> timestamp = now, success = ok, response_time = rt, jobs_found = jf \<rparr>]
         \<and> length (history_of (snd (record_request t now sid ok rt jf)) sid) \<le> 100"
proof -
  let ?h = "history_of t sid"
  show ?thesis
  proof (cases "length ?h = 100")
    case True
    then have "?h \<noteq> []" by auto
    with True assms show ?thesis
      by (simp add: record_request_history deque_append_def)
  next
    case False
    with assms show ?thesis
      by (simp add: record_request_history deque_append_def)
  qed
qed

theorem record_request_window_witness:
  "history_size full_tracker = 100 \<and> length (history_of full_tracker ''web_search'') \<le> 100 \<and>
   history_of (snd (record_request full_tracker 7 ''web_search'' False (- 5 / 2) 0)) ''web_search'' =
     replicate 99 \<lparr> timestamp = 0, success = True, response_time = 1, jobs_found = 4 \<rparr>
       @ [\<lparr> timestamp = 7, success = False, response_time = - 5 / 2, jobs_found = 0 \<rparr>]"
proof -
  have a: "history_size full_tracker = 100" by (simp add: full_tracker_def)
  have h: "history_of full_tracker ''web_search'' =
      replicate 100 \<lparr> timestamp = 0, success = True, response_time = 1, jobs_found = 4 \<rparr>"
    by (simp add: full_tracker_def history_of_def)
  have b: "length (history_of full_tracker ''web_search'') \<le> 100" by (simp add: h)
  have t: "tl (replicate 100 x) = replicate 99 x" for x :: request_result
    by (simp add: tl_replicate)
  from record_request_window [OF a b, of 7 False "- 5 / 2" 0] a b show ?thesis
    by (simp add: h t)
qed

subsection \<open>The availability flag\<close>

text \<open>
  Claim C7: after any sequence of recorded outcomes a source whose success rate is at
  most 0.3 reports \<open>available == false\<close>; in particular a source with five failures and
  one success does. In the code every \<open>record_request\<close> of the router's tracker ends in
  \<open>TypeError\<close> before \<open>source_metrics\<close> is written, so after the six calls of that scenario
  \<open>get_source_metrics\<close> still returns \<open>None\<close>: no availability flag is reported at all.
\<close>

theorem scenario_d_no_metrics:
  "get_source_metrics
     (performance_tracker
        (record_all new_IntelligentSourceRouter
           [(1, ''web_search'', False, 15, 0), (2, ''web_search'', False, 15, 0),
            (3, ''web_search'', False, 15, 0), (4, ''web_search'', False, 15, 0),
            (5, ''web_search'', False, 15, 0), (6, ''web_search'', True, 2, 8)]))
     ''web_search'' = None \<and>
   fst (record_source_result new_IntelligentSourceRouter 1 ''web_search'' False 15 0)
     = Some TypeError"
proof -
  have h: "0 < history_size (performance_tracker new_IntelligentSourceRouter)"
    by (simp add: new_IntelligentSourceRouter_def new_PerformanceTracker_def)
  have e: "source_metrics (performance_tracker new_IntelligentSourceRouter) = Map.empty"
    by (simp add: new_IntelligentSourceRouter_def new_PerformanceTracker_def)
  show ?thesis
    using record_all_no_metrics [OF h] record_source_result_raises(1) [OF h]
    by (simp add: get_source_metrics_def e)
qed

subsection \<open>The priority score\<close>

text \<open>
  The score that \<open>_update_metrics\<close> computes from a non-empty window, before it builds
  the record, is the weighted sum of the window's success rate, average response time
  and average number of jobs.
\<close>

lemma window_priority_score:
  assumes "history \<noteq> []"
  shows "wm_priority_score (derive_metrics history) =
           5 / 10 * (of_nat (length (filter success history)) / of_nat (length history))
         + 3 / 10 * max 0 (1 - (sum_list (map response_time history) / of_nat (length history)) / 30)
         + 2 / 10 * min 1 ((of_int (sum_list (map jobs_found history)) / of_nat (length history)) / 20)"
  using assms by (simp add: derive_metrics_def calculate_priority_score_def Let_def)

text \<open>
  Claim C9: every source with at least one recorded request has a derived priority score
  equal to \<open>0.5 * successRate + 0.3 * max(0, 1 - avgResponseTime / 30) + 0.2 * min(1, avgJobsFound / 20)\<close>
  over its current window. In the code the score is computed and then lost: after one
  successful request of 3 seconds that found 8 jobs, the window holds the entry and the
  formula gives \<open>0.5 + 0.27 + 0.08 = 0.85\<close>, but the call ends in \<open>TypeError\<close> while the
  record is built, and \<open>get_source_metrics\<close> returns \<open>None\<close>: the source has no derived
  priority score.
\<close>

theorem priority_score_not_stored:
  "fst (record_request (new_PerformanceTracker 100) 1 ''web_search'' True 3 8) = Some TypeError \<and>
   history_of (snd (record_request (new_PerformanceTracker 100) 1 ''web_search'' True 3 8))
       ''web_search''
     = [\<lparr> timestamp = 1, success = True, response_time = 3, jobs_found = 8 \<rparr>] \<and>
   wm_priority_score (derive_metrics
       [\<lparr> timestamp = 1, success = True, response_time = 3, jobs_found = 8 \<rparr>]) = 17 / 20 \<and>
   get_source_metrics (snd (record_request (new_PerformanceTracker 100) 1 ''web_search'' True 3 8))
       ''web_search'' = None"
proof -
  have r: "fst (record_request (new_PerformanceTracker 100) 1 ''web_search'' True 3 8)
      = Some TypeError"
    by (rule record_request_raises) (simp add: new_PerformanceTracker_def)
  have h: "history_of (snd (record_request (new_PerformanceTracker 100) 1 ''web_search'' True 3 8))
       ''web_search''
     = [\<lparr> timestamp = 1, success = True, response_time = 3, jobs_found = 8 \<rparr>]"
    unfolding record_request_history
    by (simp add: deque_append_def new_PerformanceTracker_def history_of_def)
  have p: "wm_priority_score (derive_metrics
       [\<lparr> timestamp = 1, success = True, response_time = 3, jobs_found = 8 \<rparr>]) = 17 / 20"
    by (simp add: derive_metrics_def calculate_priority_score_def Let_def)
  have m: "get_source_metrics
       (snd (record_request (new_PerformanceTracker 100) 1 ''web_search'' True 3 8))
       ''web_search'' = None"
    by (simp add: get_source_metrics_def record_request_metrics_unchanged
          new_PerformanceTracker_def)
  from r h p m show ?thesis by (intro conjI)
qed

subsection \<open>Source selection for a company query\<close>

lemma ranked_company:
  "map c_id (rank_sources
     (filter_by_preferences (get_available_sources new_IntelligentSourceRouter)
        (preferred_sources (get_query_profile COMPANY_SPECIFIC))) COMPANY_SPECIFIC) =
   [''api_linkedin'', ''api_indeed'', ''scraper_bdjobs'', ''scraper_linkedin'',
    ''scraper_skilljobs'', ''web_search'', ''scraper_shomvob'']"
  by code_simp

lemma map_py_take: "map f (py_take n xs) = py_take n (map f xs)"
  by (simp add: py_take_def take_map)

lemma classify_company:
  "classify_query (empty_query\<lparr> q_company := Some ''Google'' \<rparr>) = COMPANY_SPECIFIC"
  by (simp add: classify_query_def truthy_def)

lemma profile_company:
  "min_sources (get_query_profile COMPANY_SPECIFIC) = 2 \<and>
   max_sources (get_query_profile COMPANY_SPECIFIC) = 3"
  by (simp add: get_query_profile_def query_profiles_def)

text \<open>
  Claim C2, as stated: with no recorded history the query \<open>{company: "Google"}\<close> is
  classified COMPANY_SPECIFIC and the selected sources are ordered as in that profile's
  preferred list (scraper_bdjobs, scraper_linkedin, api_linkedin, web_search). The
  selection starts with \<open>api_linkedin\<close> (position 2 of the preferred list) and has
  \<open>scraper_bdjobs\<close> (position 0 of the preferred list) third.
\<close>

theorem select_sources_company_counterexample:
  "take 1 (select_sources new_IntelligentSourceRouter
             (empty_query\<lparr> q_company := Some ''Google'' \<rparr>) 5) = [''api_linkedin''] \<and>
   drop 2 (select_sources new_IntelligentSourceRouter
             (empty_query\<lparr> q_company := Some ''Google'' \<rparr>) 5) = [''scraper_bdjobs''] \<and>
   preference_map (preferred_sources (get_query_profile COMPANY_SPECIFIC)) ''api_linkedin''
     = Some 2 \<and>
   preference_map (preferred_sources (get_query_profile COMPANY_SPECIFIC)) ''scraper_bdjobs''
     = Some 0"
  by code_simp

text \<open>
  Claim C2, amended: with no recorded history the query \<open>{company: "Google"}\<close> is
  classified COMPANY_SPECIFIC, and \<open>select_sources\<close> returns a non-empty list in
  descending rank order (base priority plus query-type boost), the preferred order
  only deciding between equal ranks: api_linkedin, api_indeed, scraper_bdjobs, of which
  the first two are returned when fewer than three sources are asked for.
\<close>

theorem select_sources_company:
  "classify_query (empty_query\<lparr> q_company := Some ''Google'' \<rparr>) = COMPANY_SPECIFIC \<and>
   select_sources new_IntelligentSourceRouter (empty_query\<lparr> q_company := Some ''Google'' \<rparr>)
       max_src =
     (if 3 \<le> max_src then [''api_linkedin'', ''api_indeed'', ''scraper_bdjobs'']
      else [''api_linkedin'', ''api_indeed''])"
proof -
  let ?ranked = "rank_sources
     (filter_by_preferences (get_available_sources new_IntelligentSourceRouter)
        (preferred_sources (get_query_profile COMPANY_SPECIFIC))) COMPANY_SPECIFIC"
  have len: "length ?ranked = 7"
    using arg_cong [OF ranked_company, of length] by simp
  have "select_optimal_sources ?ranked (get_query_profile COMPANY_SPECIFIC) max_src =
     (if 3 \<le> max_src then [''api_linkedin'', ''api_indeed'', ''scraper_bdjobs'']
      else [''api_linkedin'', ''api_indeed''])"
  proof -
    have two: "max_src = 2" if "max_src \<le> 3" "\<not> max_src < 2" "max_src \<noteq> 3"
      using that by arith
    show ?thesis
      unfolding select_optimal_sources_def Let_def map_py_take ranked_company len
      by (auto simp add: profile_company py_take_def min_def dest: two)
  qed
  then show ?thesis
    by (simp add: select_sources_def Let_def classify_company)
qed

section \<open>Properties of the validator\<close>

subsection \<open>Bounds on the parts of the score\<close>

lemma not_truthy_get_str: "\<not> truthy v \<Longrightarrow> get_str v = []"
  by (auto simp: truthy_def get_str_def split: option.splits)

lemma truthy_Some: "truthy (Some v) = (v \<noteq> [])"
  by (simp add: truthy_def)

lemma check_required_fields_score:
  "fst (check_required_fields j) =
     field_score (title j) + field_score (company j) + field_score (location j)
       + field_score (summary j)"
  by (simp add: check_required_fields_def required_fields_def field_score_def)

lemma validate_title_le: "fst (validate_title t th) \<le> 0"
  by (simp add: validate_title_def Let_def)

lemma validate_company_le: "fst (validate_company c th) \<le> 0"
  by (simp add: validate_company_def Let_def)

lemma validate_location_le: "fst (validate_location l) \<le> 0"
  by (simp add: validate_location_def Let_def)

lemma validate_location_ge: "- (5 / 100) \<le> fst (validate_location l)"
  by (simp add: validate_location_def Let_def)

lemma validate_summary_le: "fst (validate_summary s th) \<le> 0"
  by (simp add: validate_summary_def Let_def)

lemma validate_url_le: "fst (validate_url u th) \<le> 0"
  by (simp add: validate_url_def Let_def)

lemma validate_salary_le: "fst (validate_salary s) \<le> 0"
  by (simp add: validate_salary_def)

lemma detect_spam_ge: "0 \<le> fst (detect_spam j)"
  by (simp add: detect_spam_def Let_def)

lemma field_score_le: "field_score v \<le> 1 / 10"
  by (simp add: field_score_def)

lemma quality_score_eq: "quality_score (validate_job lvl j) = max 0 (min 1 (raw_score lvl j))"
  by (simp add: validate_job_def Let_def)

lemma quality_score_ge: "0 \<le> quality_score (validate_job lvl j)"
  by (simp add: quality_score_eq)

lemma raw_score_no_title:
  assumes "\<not> truthy (title j)"
  shows "raw_score lvl j \<le> 0"
proof -
  have t: "fst (validate_title (get_str (title j)) (level_thresholds lvl)) = - (2 / 10)"
    by (simp add: not_truthy_get_str [OF assms] validate_title_def)
  have f: "field_score (title j) = - (2 / 10)" using assms by (simp add: field_score_def)
  show ?thesis
    unfolding raw_score_def Let_def check_required_fields_score t f
    using field_score_le [of "company j"] field_score_le [of "location j"]
      field_score_le [of "summary j"]
      validate_company_le [of "get_str (company j)" "level_thresholds lvl"]
      validate_location_le [of "get_str (location j)"]
      validate_summary_le [of "get_str (summary j)" "level_thresholds lvl"]
      validate_url_le [of "get_str (url j)" "level_thresholds lvl"]
      validate_salary_le [of "get_str (salary j)"]
      detect_spam_ge [of j]
    by linarith
qed

lemma raw_score_no_company:
  assumes "\<not> truthy (company j)"
  shows "raw_score lvl j \<le> 0"
proof -
  have t: "fst (validate_company (get_str (company j)) (level_thresholds lvl)) = - (2 / 10)"
    by (simp add: not_truthy_get_str [OF assms] validate_company_def)
  have f: "field_score (company j) = - (2 / 10)" using assms by (simp add: field_score_def)
  show ?thesis
    unfolding raw_score_def Let_def check_required_fields_score t f
    using field_score_le [of "title j"] field_score_le [of "location j"]
      field_score_le [of "summary j"]
      validate_title_le [of "get_str (title j)" "level_thresholds lvl"]
      validate_location_le [of "get_str (location j)"]
      validate_summary_le [of "get_str (summary j)" "level_thresholds lvl"]
      validate_url_le [of "get_str (url j)" "level_thresholds lvl"]
      validate_salary_le [of "get_str (salary j)"]
      detect_spam_ge [of j]
    by linarith
qed

lemma raw_score_fill_location:
  assumes "\<not> truthy (location j)" and "v \<noteq> []"
  shows "raw_score lvl j \<le> raw_score lvl (j\<lparr> location := Some v \<rparr>)"
proof -
  have l0: "fst (validate_location (get_str (location j))) = - (5 / 100)"
    by (simp add: not_truthy_get_str [OF assms(1)] validate_location_def)
  have f0: "field_score (location j) = - (2 / 10)" using assms(1) by (simp add: field_score_def)
  have f1: "field_score (Some v) = 1 / 10" using assms(2) by (simp add: field_score_def truthy_def)
  have sp: "detect_spam (j\<lparr> location := Some v \<rparr>) = detect_spam j"
    by (simp add: detect_spam_def)
  show ?thesis
    unfolding raw_score_def Let_def check_required_fields_score l0 f0 sp
    using validate_location_ge [of v]
    by (simp add: f1 get_str_def)
qed

subsection \<open>Filling in a required field\<close>

text \<open>
  Claim C6, amended: for every validation level, every listing whose title, company or
  location is missing, and every non-empty value for that field, the listing with the
  field filled in and everything else unchanged never has a lower quality score. (A
  missing title or company leaves the clamped score at 0; a location adds at least
  0.3 to the unclamped score.) Nothing is claimed for the summary.
\<close>

theorem required_field_monotone:
  assumes "v \<noteq> []"
  shows "(\<not> truthy (title j) \<longrightarrow>
            quality_score (validate_job lvl j)
              \<le> quality_score (validate_job lvl (j\<lparr> title := Some v \<rparr>)))
       \<and> (\<not> truthy (company j) \<longrightarrow>
            quality_score (validate_job lvl j)
              \<le> quality_score (validate_job lvl (j\<lparr> company := Some v \<rparr>)))
       \<and> (\<not> truthy (location j) \<longrightarrow>
            quality_score (validate_job lvl j)
              \<le> quality_score (validate_job lvl (j\<lparr> location := Some v \<rparr>)))"
proof (intro conjI impI)
  assume "\<not> truthy (title j)"
  then have "quality_score (validate_job lvl j) = 0"
    using raw_score_no_title [of j lvl] by (simp add: quality_score_eq)
  then show "quality_score (validate_job lvl j)
      \<le> quality_score (validate_job lvl (j\<lparr> title := Some v \<rparr>))"
    using quality_score_ge [of lvl "j\<lparr> title := Some v \<rparr>"] by simp
next
  assume "\<not> truthy (company j)"
  then have "quality_score (validate_job lvl j) = 0"
    using raw_score_no_company [of j lvl] by (simp add: quality_score_eq)
  then show "quality_score (validate_job lvl j)
      \<le> quality_score (validate_job lvl (j\<lparr> company := Some v \<rparr>))"
    using quality_score_ge [of lvl "j\<lparr> company := Some v \<rparr>"] by simp
next
  assume "\<not> truthy (location j)"
  from raw_score_fill_location [OF this assms, of lvl]
  show "quality_score (validate_job lvl j)
      \<le> quality_score (validate_job lvl (j\<lparr> location := Some v \<rparr>))"
    unfolding quality_score_eq by (simp add: max_def min_def)
qed

theorem required_field_monotone_witness:
  "''Dhaka'' \<noteq> [] \<and> \<not> truthy (location no_location_job) \<and>
   quality_score (validate_job MODERATE no_location_job) = 1 / 20 \<and>
   quality_score (validate_job MODERATE (no_location_job\<lparr> location := Some ''Dhaka'' \<rparr>))
     = 4 / 10 \<and>
   quality_score (validate_job MODERATE no_location_job)
     \<le> quality_score (validate_job MODERATE (no_location_job\<lparr> location := Some ''Dhaka'' \<rparr>))"
proof -
  have a: "''Dhaka'' \<noteq> []" by simp
  have b: "\<not> truthy (location no_location_job)"
    by (simp add: no_location_job_def empty_job_def truthy_def)
  have s0: "quality_score (validate_job MODERATE no_location_job) = 1 / 20"
    by code_simp
  have s1: "quality_score
      (validate_job MODERATE (no_location_job\<lparr> location := Some ''Dhaka'' \<rparr>)) = 4 / 10"
    by code_simp
  from required_field_monotone [OF a, of no_location_job MODERATE] b
  have le: "quality_score (validate_job MODERATE no_location_job)
     \<le> quality_score (validate_job MODERATE (no_location_job\<lparr> location := Some ''Dhaka'' \<rparr>))"
    by blast
  from a b s0 s1 le show ?thesis by (intro conjI)
qed

text \<open>
  Claim C6, as stated, covers the summary as well. The summary is part of the text that
  \<open>_detect_spam\<close> scans: a listing without summary scores 0.05 under the lenient level,
  and the same listing with a summary that matches all five spam indicators scores 0.
\<close>

theorem summary_monotonicity_counterexample:
  "\<not> truthy (summary acme_job) \<and>
   quality_score (validate_job LENIENT
      (acme_job\<lparr> summary :=
         Some ''Earn money, work from home, click here: no experience, part time'' \<rparr>))
     < quality_score (validate_job LENIENT acme_job)"
  by code_simp

subsection \<open>The validity rule\<close>

text \<open>
  Claim C8: for every listing and every validation level, \<open>is_valid\<close> holds if and only
  if the final quality score, clamped to the range from 0 to 1, is at least the level's
  minimum score. No issue enters the rule: a listing with issues whose score reaches the
  minimum is valid, as the lenient listing with a malformed URL below.
\<close>

theorem validate_job_valid_iff:
  "is_valid (validate_job lvl j)
     = (min_quality_score (level_thresholds lvl) \<le> quality_score (validate_job lvl j))
   \<and> quality_score (validate_job lvl j) = max 0 (min 1 (raw_score lvl j))"
  by (simp add: validate_job_def Let_def)

theorem validate_job_valid_iff_witness:
  "issues (validate_job LENIENT
      (acme_job\<lparr> summary := Some ''We are hiring a skilled software engineer'',
                  url := Some ''ftp://acme.com/jobs/1'' \<rparr>)) = [UrlInvalidFormat] \<and>
   is_valid (validate_job LENIENT
      (acme_job\<lparr> summary := Some ''We are hiring a skilled software engineer'',
                  url := Some ''ftp://acme.com/jobs/1'' \<rparr>))"
proof -
  have "quality_score (validate_job LENIENT
      (acme_job\<lparr> summary := Some ''We are hiring a skilled software engineer'',
                  url := Some ''ftp://acme.com/jobs/1'' \<rparr>)) = 3 / 10"
    by code_simp
  moreover have "issues (validate_job LENIENT
      (acme_job\<lparr> summary := Some ''We are hiring a skilled software engineer'',
                  url := Some ''ftp://acme.com/jobs/1'' \<rparr>)) = [UrlInvalidFormat]"
    by code_simp
  ultimately show ?thesis
    using validate_job_valid_iff [of LENIENT
      "acme_job\<lparr> summary := Some ''We are hiring a skilled software engineer'',
                  url := Some ''ftp://acme.com/jobs/1'' \<rparr>"]
    by simp
qed

subsection \<open>The validation stage of the pipeline\<close>

lemma validate_jobs_keeps:
  "(validate_jobs lvl [j] \<noteq> []) = (3 / 10 \<le> quality_score (validate_job lvl j))"
  by (simp add: validate_jobs_def Let_def)

lemma validate_jobs_filter:
  "map (\<lambda>j. j\<lparr> validation_metadata := None \<rparr>) (validate_jobs lvl jobs) =
   map (\<lambda>j. j\<lparr> validation_metadata := None \<rparr>)
     (filter (\<lambda>j. 3 / 10 \<le> quality_score (validate_job lvl j)) jobs)"
  by (induction jobs) (simp_all add: validate_jobs_def Let_def)

text \<open>
  Claim C5: the validation stage keeps a listing if and only if its score is at least
  the minimum score of the configured level (0.7, 0.5, 0.3). The stage compares the
  score with the literal 0.3 instead: under the moderate level a listing without URL
  scores 0.35, which is below the level's minimum 0.5 (\<open>is_valid\<close> is false), and the
  stage keeps it.
\<close>

theorem validate_jobs_ignores_level:
  "quality_score (validate_job MODERATE
      (acme_job\<lparr> summary := Some ''We are hiring a skilled software engineer'', url := None \<rparr>))
     = 7 / 20 \<and>
   min_quality_score (level_thresholds MODERATE) = 5 / 10 \<and>
   \<not> is_valid (validate_job MODERATE
      (acme_job\<lparr> summary := Some ''We are hiring a skilled software engineer'', url := None \<rparr>)) \<and>
   validate_jobs MODERATE
      [acme_job\<lparr> summary := Some ''We are hiring a skilled software engineer'', url := None \<rparr>]
     \<noteq> []"
proof -
  have s: "quality_score (validate_job MODERATE
      (acme_job\<lparr> summary := Some ''We are hiring a skilled software engineer'', url := None \<rparr>))
     = 7 / 20"
    by code_simp
  have v: "is_valid (validate_job MODERATE j)
      = (min_quality_score (level_thresholds MODERATE) \<le> quality_score (validate_job MODERATE j))"
    for j
    by (simp add: validate_job_def Let_def)
  show ?thesis
    unfolding validate_jobs_keeps v s by simp
qed

section \<open>Properties of the deduplicator\<close>

subsection \<open>The fingerprint groups\<close>

lemma job_fingerprints_fst: "map fst (job_fingerprints jobs) = [0 ..< length jobs]"
  by (simp add: job_fingerprints_def map_idI comp_def case_prod_beta)

lemma job_fingerprints_length: "length (job_fingerprints jobs) = length jobs"
  by (simp add: job_fingerprints_def)

lemma job_fingerprints_nth:
  "i < length jobs \<Longrightarrow> job_fingerprints jobs ! i = (i, generate_fingerprint (jobs ! i), jobs ! i)"
  by (simp add: job_fingerprints_def)

lemma key_in_keys: "(k, v) \<in> set gs \<Longrightarrow> k \<in> fst ` set gs"
  by force

lemma group_append_keys:
  "map fst (group_append k i gs) = (if k \<in> set (map fst gs) then map fst gs else map fst gs @ [k])"
  by (induction gs) (auto dest: key_in_keys)

lemma group_append_distinct:
  "distinct (map fst gs) \<Longrightarrow> distinct (map fst (group_append k i gs))"
  by (simp add: group_append_keys)

lemma group_append_map_of:
  "map_of (group_append k i gs) =
     (map_of gs)(k \<mapsto> (case map_of gs k of None \<Rightarrow> [] | Some g \<Rightarrow> g) @ [i])"
  by (induction gs) (auto simp: fun_eq_iff)

lemma groups_foldl:
  "distinct (map fst gs) \<Longrightarrow>
   distinct (map fst (foldl (\<lambda>gs (i, fp, j). group_append fp i gs) gs fps)) \<and>
   map_of (foldl (\<lambda>gs (i, fp, j). group_append fp i gs) gs fps) k =
     (if map_of gs k = None \<and> hits k fps = [] then None
      else Some ((case map_of gs k of None \<Rightarrow> [] | Some g \<Rightarrow> g) @ hits k fps))"
proof (induction fps arbitrary: gs)
  case Nil
  then show ?case by (auto simp: hits_def split: option.splits)
next
  case (Cons e fps)
  obtain i fp j where e: "e = (i, fp, j)" by (cases e) auto
  have d: "distinct (map fst (group_append fp i gs))"
    using Cons.prems by (rule group_append_distinct)
  show ?case
    using Cons.IH [OF d]
    by (auto simp: e group_append_map_of hits_def split: option.splits)
qed

lemma fingerprint_groups_map_of:
  "distinct (map fst (fingerprint_groups fps))"
  "map_of (fingerprint_groups fps) k = (if hits k fps = [] then None else Some (hits k fps))"
  using groups_foldl [of "[]" fps k] by (simp_all add: fingerprint_groups_def)

lemma fingerprint_groups_mem:
  "g \<in> set (map snd (fingerprint_groups fps)) \<longleftrightarrow> (\<exists>k. hits k fps \<noteq> [] \<and> g = hits k fps)"
proof -
  have "g \<in> set (map snd (fingerprint_groups fps)) \<longleftrightarrow>
      (\<exists>k. (k, g) \<in> set (fingerprint_groups fps))"
    by force
  also have "\<dots> \<longleftrightarrow> (\<exists>k. map_of (fingerprint_groups fps) k = Some g)"
    using fingerprint_groups_map_of(1) [of fps] by (auto simp: map_of_eq_Some_iff)
  also have "\<dots> \<longleftrightarrow> (\<exists>k. hits k fps \<noteq> [] \<and> g = hits k fps)"
    by (auto simp: fingerprint_groups_map_of(2))
  finally show ?thesis .
qed

lemma find_exact_duplicates_mem:
  "g \<in> set (find_exact_duplicates fps) \<longleftrightarrow> (\<exists>k. g = hits k fps \<and> 1 < length g)"
proof -
  have "hits k fps \<noteq> []" if "1 < length (hits k fps)" for k
    using that by auto
  then show ?thesis
    unfolding find_exact_duplicates_def set_filter mem_Collect_eq fingerprint_groups_mem
    by auto
qed

lemma distinct_concat_filter:
  "distinct (concat xs) \<Longrightarrow> distinct (concat (filter P xs))"
  by (induction xs) auto

lemma hits_distinct: "distinct (map fst fps) \<Longrightarrow> distinct (hits k fps)"
  by (simp add: hits_def distinct_map_filter)

lemma hits_set: "set (hits k fps) = {i. \<exists>j. (i, k, j) \<in> set fps}"
  by (force simp: hits_def)

lemma hits_disjoint:
  assumes "distinct (map fst fps)" and "k \<noteq> k'"
  shows "set (hits k fps) \<inter> set (hits k' fps) = {}"
proof -
  { fix i j j' assume a: "(i, k, j) \<in> set fps" "(i, k', j') \<in> set fps"
    from assms(1) a have "(k, j) = (k', j')"
      by (meson eq_key_imp_eq_value)
    with assms(2) have False by simp }
  then show ?thesis by (auto simp: hits_set)
qed

lemma exact_groups_distinct:
  assumes "distinct (map fst fps)"
  shows "distinct (concat (find_exact_duplicates fps))"
proof -
  let ?G = "fingerprint_groups fps"
  have dk: "distinct (map fst ?G)" by (rule fingerprint_groups_map_of(1))
  have val: "g = hits k fps \<and> hits k fps \<noteq> []" if "(k, g) \<in> set ?G" for k g
  proof -
    from that dk have "map_of ?G k = Some g" by (simp add: map_of_eq_Some_iff)
    then show ?thesis by (auto simp: fingerprint_groups_map_of(2) split: if_splits)
  qed
  have "distinct (concat (map snd G))"
    if "distinct (map fst G)" "\<And>k g. (k, g) \<in> set G \<Longrightarrow> g = hits k fps \<and> hits k fps \<noteq> []"
    for G :: "(string \<times> nat list) list"
    using that
  proof (induction G)
    case Nil
    then show ?case by simp
  next
    case (Cons a G)
    obtain k g where a: "a = (k, g)" by (cases a) auto
    have g: "g = hits k fps" using Cons.prems(2) [of k g] by (simp add: a)
    have "set g \<inter> set (concat (map snd G)) = {}"
    proof -
      { fix k' g' assume m: "(k', g') \<in> set G"
        then have "k' \<noteq> k" using Cons.prems(1) by (force simp: a)
        moreover have "g' = hits k' fps" using Cons.prems(2) [of k' g'] m by simp
        ultimately have "set g \<inter> set g' = {}"
          using hits_disjoint [OF assms, of k k'] g by auto }
      then show ?thesis by fastforce
    qed
    moreover have "distinct g" using g hits_distinct [OF assms] by simp
    moreover have "distinct (concat (map snd G))"
      using Cons.IH Cons.prems by auto
    ultimately show ?case by (simp add: a)
  qed
  from this [OF dk val] have "distinct (concat (map snd ?G))" by blast
  then show ?thesis
    unfolding find_exact_duplicates_def by (rule distinct_concat_filter)
qed

subsection \<open>The fuzzy groups\<close>

lemma compare_rest_result:
  assumes "distinct (map fst rest)"
  shows "\<exists>new. compare_rest th cur rest (grp, pr) = (grp @ new, pr \<union> set new)
            \<and> distinct new \<and> set new \<subseteq> set (map fst rest) - pr"
  using assms
proof (induction rest arbitrary: grp pr)
  case Nil
  then show ?case by simp
next
  case (Cons e rest)
  obtain j fp other where e: "e = (j, fp, other)" by (cases e) auto
  from Cons.prems have d: "distinct (map fst rest)" and j: "j \<notin> set (map fst rest)"
    by (simp_all add: e)
  show ?case
  proof (cases "j \<notin> pr \<and> th \<le> calculate_similarity cur other")
    case True
    from Cons.IH [OF d, of "grp @ [j]" "insert j pr"]
    obtain new where n: "compare_rest th cur rest (grp @ [j], insert j pr)
          = ((grp @ [j]) @ new, insert j pr \<union> set new)"
        "distinct new" "set new \<subseteq> set (map fst rest) - insert j pr"
      by blast
    have "compare_rest th cur (e # rest) (grp, pr) = (grp @ (j # new), pr \<union> set (j # new))"
      using True n(1) by (simp add: e)
    moreover have "distinct (j # new)" using n(2,3) j by auto
    moreover have "set (j # new) \<subseteq> set (map fst (e # rest)) - pr"
      using n(3) True by (auto simp: e)
    ultimately show ?thesis by blast
  next
    case False
    from Cons.IH [OF d, of grp pr]
    obtain new where n: "compare_rest th cur rest (grp, pr) = (grp @ new, pr \<union> set new)"
        "distinct new" "set new \<subseteq> set (map fst rest) - pr"
      by blast
    have "compare_rest th cur (e # rest) (grp, pr) = (grp @ new, pr \<union> set new)"
      using False n(1) by (auto simp: e)
    moreover have "set new \<subseteq> set (map fst (e # rest)) - pr"
      using n(3) by (auto simp: e)
    ultimately show ?thesis using n(2) by blast
  qed
qed

lemma fuzzy_loop_invariant:
  assumes "distinct (map fst fps)"
    and "distinct (concat groups)"
    and "set (concat groups) \<subseteq> pr"
    and "\<forall>g \<in> set groups. 1 < length g"
  shows "distinct (concat (fuzzy_loop th fps (groups, pr)))
       \<and> (\<forall>g \<in> set (fuzzy_loop th fps (groups, pr)). 1 < length g)
       \<and> set (concat (fuzzy_loop th fps (groups, pr)))
            \<subseteq> set (concat groups) \<union> (set (map fst fps) - pr)"
  using assms
proof (induction fps arbitrary: groups pr)
  case Nil
  then show ?case by simp
next
  case (Cons e fps)
  obtain i fp cur where e: "e = (i, fp, cur)" by (cases e) auto
  from Cons.prems(1) have d: "distinct (map fst fps)" and i: "i \<notin> set (map fst fps)"
    by (simp_all add: e)
  show ?case
  proof (cases "i \<in> pr")
    case True
    from Cons.IH [OF d Cons.prems(2,3,4)] True show ?thesis
      by (auto simp: e)
  next
    case False
    from compare_rest_result [OF d, of th cur "[i]" pr]
    obtain new where n: "compare_rest th cur fps ([i], pr) = ([i] @ new, pr \<union> set new)"
        "distinct new" "set new \<subseteq> set (map fst fps) - pr"
      by blast
    show ?thesis
    proof (cases "new = []")
      case True
      have step: "fuzzy_loop th (e # fps) (groups, pr) = fuzzy_loop th fps (groups, pr)"
        using False n(1) True by (simp add: e)
      from Cons.IH [OF d Cons.prems(2,3,4)] show ?thesis
        unfolding step by (auto simp: e)
    next
      case nonempty: False
      let ?g = "i # new"
      let ?pr = "pr \<union> set new \<union> set ?g"
      have step: "fuzzy_loop th (e # fps) (groups, pr)
          = fuzzy_loop th fps (groups @ [?g], ?pr)"
        using False n(1) nonempty by (simp add: e)
      have dg: "distinct ?g" using n(2,3) i by auto
      have disj: "set ?g \<inter> set (concat groups) = {}"
        using Cons.prems(3) n(3) False by auto
      have a2: "distinct (concat (groups @ [?g]))"
        using Cons.prems(2) dg disj by auto
      have a3: "set (concat (groups @ [?g])) \<subseteq> ?pr"
        using Cons.prems(3) by auto
      have a4: "\<forall>g \<in> set (groups @ [?g]). 1 < length g"
        using Cons.prems(4) nonempty by (cases new) auto
      have sub: "set (concat (groups @ [?g])) \<union> (set (map fst fps) - ?pr)
          \<subseteq> set (concat groups) \<union> (set (map fst (e # fps)) - pr)"
        using n(3) False by (auto simp: e)
      from Cons.IH [OF d a2 a3 a4] sub show ?thesis
        unfolding step by blast
    qed
  qed
qed

lemma exact_groups_range:
  "set (concat (find_exact_duplicates fps)) \<subseteq> set (map fst fps)"
  by (force simp: find_exact_duplicates_mem hits_def)

lemma exact_groups_length: "\<forall>g \<in> set (find_exact_duplicates fps). 1 < length g"
  by (simp add: find_exact_duplicates_def)

text \<open>All groups of one run: pairwise disjoint, of two or more valid indices each.\<close>

lemma all_groups:
  fixes jobs :: "job list" and th :: rat
  defines "exact \<equiv> find_exact_duplicates (job_fingerprints jobs)"
  defines "fuzzy \<equiv> find_fuzzy_duplicates th (job_fingerprints jobs) exact"
  shows "distinct (concat (exact @ fuzzy))"
    and "\<forall>g \<in> set (exact @ fuzzy). 1 < length g"
    and "set (concat (exact @ fuzzy)) \<subseteq> {..< length jobs}"
    and "set (concat fuzzy) \<inter> set (concat exact) = {}"
proof -
  let ?fps = "job_fingerprints jobs"
  have d: "distinct (map fst ?fps)" by (simp add: job_fingerprints_fst)
  have pr: "\<Union> (set (map set exact)) = set (concat exact)" by auto
  have inv: "distinct (concat fuzzy) \<and> (\<forall>g \<in> set fuzzy. 1 < length g)
       \<and> set (concat fuzzy) \<subseteq> set (concat []) \<union> (set (map fst ?fps) - set (concat exact))"
    unfolding fuzzy_def find_fuzzy_duplicates_def pr
    by (rule fuzzy_loop_invariant [OF d]) simp_all
  have de: "distinct (concat exact)"
    unfolding exact_def by (rule exact_groups_distinct [OF d])
  have re: "set (concat exact) \<subseteq> {..< length jobs}"
    using exact_groups_range [of ?fps] by (auto simp: exact_def job_fingerprints_fst)
  show disj: "set (concat fuzzy) \<inter> set (concat exact) = {}" using inv by auto
  show "distinct (concat (exact @ fuzzy))" using de inv disj by auto
  show "\<forall>g \<in> set (exact @ fuzzy). 1 < length g"
    using inv exact_groups_length [of ?fps] by (auto simp: exact_def)
  show "set (concat (exact @ fuzzy)) \<subseteq> {..< length jobs}"
    using re inv by (auto simp: job_fingerprints_fst)
qed

subsection \<open>The selection of the representatives\<close>

lemma best_loop_result:
  "set grp \<subseteq> {..< length jobs} \<Longrightarrow>
   \<exists>b. best_loop jobs grp (bs, bi) = Inr b \<and> b \<in> insert bi (set grp)"
proof (induction grp arbitrary: bs bi)
  case Nil
  then show ?case by simp
next
  case (Cons i grp)
  then have i: "i < length jobs" and r: "set grp \<subseteq> {..< length jobs}" by auto
  show ?case
  proof (cases "bs < final_score (jobs ! i)")
    case True
    from Cons.IH [OF r, of "final_score (jobs ! i)" i] True i show ?thesis by auto
  next
    case False
    from Cons.IH [OF r, of bs bi] False i show ?thesis by auto
  qed
qed

lemma select_best_job_from_group_result:
  assumes "grp \<noteq> []" and "set grp \<subseteq> {..< length jobs}"
  shows "\<exists>b. select_best_job_from_group jobs grp = Inr b \<and> b \<in> set grp"
proof -
  obtain g rest where grp: "grp = g # rest" using assms(1) by (cases grp) auto
  from best_loop_result [OF assms(2), of "- 1" g] show ?thesis
    by (auto simp: select_best_job_from_group_def grp)
qed

lemma best_of_groups_result:
  assumes "\<forall>g \<in> set groups. g \<noteq> [] \<and> set g \<subseteq> {..< length jobs}"
  shows "\<exists>bs. list_all2 (\<lambda>b g. b \<in> set g) bs groups
            \<and> best_of_groups jobs groups sel = Inr (sel \<union> set bs)"
  using assms
proof (induction groups arbitrary: sel)
  case Nil
  then show ?case by simp
next
  case (Cons g groups)
  from Cons.prems have g: "g \<noteq> []" "set g \<subseteq> {..< length jobs}" by auto
  from select_best_job_from_group_result [OF g]
  obtain b where b: "select_best_job_from_group jobs g = Inr b" "b \<in> set g" by blast
  from Cons.prems have "\<forall>g \<in> set groups. g \<noteq> [] \<and> set g \<subseteq> {..< length jobs}" by simp
  from Cons.IH [OF this, of "insert b sel"]
  obtain bs where bs: "list_all2 (\<lambda>b g. b \<in> set g) bs groups"
      "best_of_groups jobs groups (insert b sel) = Inr (insert b sel \<union> set bs)"
    by blast
  have "list_all2 (\<lambda>b g. b \<in> set g) (b # bs) (g # groups)" using b(2) bs(1) by simp
  moreover have "best_of_groups jobs (g # groups) sel = Inr (sel \<union> set (b # bs))"
    using b(1) bs(2) by simp
  ultimately show ?case by blast
qed

lemma representatives_distinct:
  "list_all2 (\<lambda>b g. b \<in> set g) bs groups \<Longrightarrow> distinct (concat groups) \<Longrightarrow> distinct bs"
proof (induction rule: list_all2_induct)
  case Nil
  then show ?case by simp
next
  case (Cons b bs g groups)
  have "b \<notin> set bs"
  proof
    assume "b \<in> set bs"
    then obtain k where k: "k < length bs" "bs ! k = b" by (auto simp: in_set_conv_nth)
    with Cons.hyps(2) have "b \<in> set (groups ! k)" "k < length groups"
      by (auto simp: list_all2_conv_all_nth)
    then have "b \<in> set (concat groups)" by auto
    with Cons.hyps(1) Cons.prems show False by auto
  qed
  with Cons show ?case by simp
qed

lemma representatives_grouped:
  "list_all2 (\<lambda>b g. b \<in> set g) bs groups \<Longrightarrow> set bs \<subseteq> set (concat groups)"
  by (induction rule: list_all2_induct) auto

lemma fold_add_ungrouped:
  "fold (add_ungrouped groups) idx sel = sel \<union> {i \<in> set idx. i \<notin> set (concat groups)}"
  by (induction idx arbitrary: sel) (auto simp: add_ungrouped_def list_ex_iff)

lemma index_all_result:
  "\<forall>i \<in> set idx. i < length xs \<Longrightarrow> index_all xs idx = Inr (map ((!) xs) idx)"
  by (induction idx) auto

lemma select_best_jobs_result:
  assumes "\<forall>g \<in> set groups. 1 < length g" and "set (concat groups) \<subseteq> {..< length jobs}"
    and "distinct (concat groups)"
  shows "\<exists>bs. list_all2 (\<lambda>b g. b \<in> set g) bs groups \<and> distinct bs
       \<and> select_best_jobs jobs groups =
           Inr (map ((!) jobs) (sorted_list_of_set (set bs \<union> ungrouped groups (length jobs))))"
proof -
  have "\<forall>g \<in> set groups. g \<noteq> [] \<and> set g \<subseteq> {..< length jobs}"
    using assms(1,2) by auto
  from best_of_groups_result [OF this, of "{}"]
  obtain bs where bs: "list_all2 (\<lambda>b g. b \<in> set g) bs groups"
      "best_of_groups jobs groups {} = Inr (set bs)"
    by auto
  let ?S = "set bs \<union> ungrouped groups (length jobs)"
  have fold: "fold (add_ungrouped groups) [0 ..< length jobs] (set bs) = ?S"
    by (auto simp: fold_add_ungrouped ungrouped_def)
  have fin: "finite ?S" by (simp add: ungrouped_def)
  have "set bs \<subseteq> {..< length jobs}"
    using representatives_grouped [OF bs(1)] assms(2) by auto
  then have rng: "\<forall>i \<in> set (sorted_list_of_set ?S). i < length jobs"
    using fin by (auto simp: ungrouped_def)
  have "select_best_jobs jobs groups = Inr (map ((!) jobs) (sorted_list_of_set ?S))"
    unfolding select_best_jobs_def bs(2) sum.case fold
    by (rule index_all_result [OF rng])
  with bs(1) representatives_distinct [OF bs(1) assms(3)] show ?thesis by blast
qed

lemma selected_card:
  assumes "list_all2 (\<lambda>b g. b \<in> set g) bs groups" and "distinct bs"
  shows "card (set bs \<union> ungrouped groups n) = length groups + card (ungrouped groups n)"
proof -
  have "set bs \<inter> ungrouped groups n = {}"
    using representatives_grouped [OF assms(1)] by (auto simp: ungrouped_def)
  moreover have "finite (ungrouped groups n)" by (simp add: ungrouped_def)
  ultimately have "card (set bs \<union> ungrouped groups n) = card (set bs) + card (ungrouped groups n)"
    by (simp add: card_Un_disjoint)
  also have "card (set bs) = length groups"
    using assms by (simp add: distinct_card list_all2_lengthD)
  finally show ?thesis .
qed

subsection \<open>One run of the deduplicator\<close>

lemma groups_of_props:
  "distinct (concat (groups_of th jobs))"
  "\<forall>g \<in> set (groups_of th jobs). 1 < length g"
  "set (concat (groups_of th jobs)) \<subseteq> {..< length jobs}"
  unfolding groups_of_def by (rule all_groups)+

lemma deduplicate_jobs_result:
  "\<exists>bs. list_all2 (\<lambda>b g. b \<in> set g) bs (groups_of th jobs) \<and> distinct bs
     \<and> deduplicate_jobs th jobs =
         Inr \<lparr> unique_jobs =
                 map ((!) jobs)
                   (sorted_list_of_set
                      (set bs \<union> ungrouped (groups_of th jobs) (length jobs))),
               duplicates_removed =
                 int (length jobs)
                   - int (card (set bs \<union> ungrouped (groups_of th jobs) (length jobs))),
               duplicate_groups = groups_of th jobs \<rparr>"
proof (cases "jobs = []")
  case True
  have "groups_of th [] = []"
    using groups_of_props(3) [of th "[]"] groups_of_props(2) [of th "[]"]
    by (cases "groups_of th []") auto
  then show ?thesis
    using True by (simp add: deduplicate_jobs_def ungrouped_def)
next
  case False
  from select_best_jobs_result [OF groups_of_props(2,3,1), of th jobs]
  obtain bs where bs: "list_all2 (\<lambda>b g. b \<in> set g) bs (groups_of th jobs)" "distinct bs"
      "select_best_jobs jobs (groups_of th jobs) =
         Inr (map ((!) jobs)
            (sorted_list_of_set (set bs \<union> ungrouped (groups_of th jobs) (length jobs))))"
    by blast
  have fin: "finite (set bs \<union> ungrouped (groups_of th jobs) (length jobs))"
    by (simp add: ungrouped_def)
  have "deduplicate_jobs th jobs =
         Inr \<lparr> unique_jobs =
                 map ((!) jobs)
                   (sorted_list_of_set
                      (set bs \<union> ungrouped (groups_of th jobs) (length jobs))),
               duplicates_removed =
                 int (length jobs)
                   - int (card (set bs \<union> ungrouped (groups_of th jobs) (length jobs))),
               duplicate_groups = groups_of th jobs \<rparr>"
    using False bs(3) fin
    by (simp add: deduplicate_jobs_def Let_def groups_of_def [symmetric])
  with bs(1,2) show ?thesis by blast
qed

text \<open>
  Claim C3, amended: for every input list the run succeeds and its groups are the
  duplicate groups only: each holds at least two valid indices, no index appears twice
  (so no listing is in two groups), a listing that matched nothing is in no group
  rather than in a singleton group, and the number of unique listings returned is the
  number of groups plus the number of listings in no group; \<open>duplicates_removed\<close> is the
  difference between the lengths of input and output.
\<close>

theorem deduplicate_jobs_groups:
  "\<exists>res. deduplicate_jobs th jobs = Inr res
     \<and> distinct (concat (duplicate_groups res))
     \<and> (\<forall>g \<in> set (duplicate_groups res). 2 \<le> length g \<and> (\<forall>i \<in> set g. i < length jobs))
     \<and> length (unique_jobs res)
         = length (duplicate_groups res)
           + card {i. i < length jobs \<and> i \<notin> set (concat (duplicate_groups res))}
     \<and> duplicates_removed res = int (length jobs) - int (length (unique_jobs res))"
proof -
  from deduplicate_jobs_result [of th jobs]
  obtain bs where bs: "list_all2 (\<lambda>b g. b \<in> set g) bs (groups_of th jobs)" "distinct bs"
    and res: "deduplicate_jobs th jobs =
         Inr \<lparr> unique_jobs =
                 map ((!) jobs)
                   (sorted_list_of_set
                      (set bs \<union> ungrouped (groups_of th jobs) (length jobs))),
               duplicates_removed =
                 int (length jobs)
                   - int (card (set bs \<union> ungrouped (groups_of th jobs) (length jobs))),
               duplicate_groups = groups_of th jobs \<rparr>"
    by blast
  have fin: "finite (set bs \<union> ungrouped (groups_of th jobs) (length jobs))"
    by (simp add: ungrouped_def)
  have rng: "\<forall>g \<in> set (groups_of th jobs). 2 \<le> length g \<and> (\<forall>i \<in> set g. i < length jobs)"
    using groups_of_props(2,3) [of th jobs] by fastforce
  show ?thesis
    unfolding res
    using groups_of_props(1) [of th jobs] rng selected_card [OF bs, of "length jobs"] fin
    by (simp add: ungrouped_def)
qed

lemma map_nth_subseq:
  assumes "sorted_wrt (<) idx" and "\<forall>i \<in> set idx. i < length xs"
  shows "subseq (map ((!) xs) idx) xs"
proof -
  let ?n = "length xs"
  have "sorted_wrt (<) (filter (\<lambda>i. i \<in> set idx) [0 ..< ?n])"
    by (simp add: sorted_wrt_filter strict_sorted_iff)
  moreover have "set (filter (\<lambda>i. i \<in> set idx) [0 ..< ?n]) = set idx"
    using assms(2) by auto
  ultimately have idx: "idx = filter (\<lambda>i. i \<in> set idx) [0 ..< ?n]"
    using assms(1) by (simp add: strict_sorted_equal)
  have z: "zip xs [0 ..< ?n] = map (\<lambda>i. (xs ! i, i)) [0 ..< ?n]"
    by (rule nth_equalityI) auto
  have "nths xs (set idx) = map ((!) xs) (filter (\<lambda>i. i \<in> set idx) [0 ..< ?n])"
    unfolding nths_def z by (simp add: filter_map comp_def)
  with idx have "map ((!) xs) idx = nths xs (set idx)" by simp
  then show ?thesis by (auto simp: subseq_conv_nths)
qed

text \<open>
  Claim C10: the deduplicator selects and does not change listings. For every input
  list the run succeeds, and the unique listings are the input listings at strictly
  ascending valid indices, each as it is in the input; so they form a subsequence of
  the input.
\<close>

theorem deduplicate_jobs_selects:
  "\<exists>res idx. deduplicate_jobs th jobs = Inr res
     \<and> sorted_wrt (<) idx \<and> (\<forall>i \<in> set idx. i < length jobs)
     \<and> unique_jobs res = map ((!) jobs) idx
     \<and> subseq (unique_jobs res) jobs"
proof -
  from deduplicate_jobs_result [of th jobs]
  obtain bs where bs: "list_all2 (\<lambda>b g. b \<in> set g) bs (groups_of th jobs)"
    and res: "deduplicate_jobs th jobs =
         Inr \<lparr> unique_jobs =
                 map ((!) jobs)
                   (sorted_list_of_set
                      (set bs \<union> ungrouped (groups_of th jobs) (length jobs))),
               duplicates_removed =
                 int (length jobs)
                   - int (card (set bs \<union> ungrouped (groups_of th jobs) (length jobs))),
               duplicate_groups = groups_of th jobs \<rparr>"
    by blast
  let ?S = "set bs \<union> ungrouped (groups_of th jobs) (length jobs)"
  have fin: "finite ?S" by (simp add: ungrouped_def)
  have "set bs \<subseteq> {..< length jobs}"
    using representatives_grouped [OF bs] groups_of_props(3) [of th jobs] by auto
  then have rng: "\<forall>i \<in> set (sorted_list_of_set ?S). i < length jobs"
    using fin by (auto simp: ungrouped_def)
  have srt: "sorted_wrt (<) (sorted_list_of_set ?S)" by simp
  obtain r where r: "deduplicate_jobs th jobs = Inr r"
      "unique_jobs r = map ((!) jobs) (sorted_list_of_set ?S)"
    using res by simp
  have "deduplicate_jobs th jobs = Inr r
     \<and> sorted_wrt (<) (sorted_list_of_set ?S)
     \<and> (\<forall>i \<in> set (sorted_list_of_set ?S). i < length jobs)
     \<and> unique_jobs r = map ((!) jobs) (sorted_list_of_set ?S)
     \<and> subseq (unique_jobs r) jobs"
    using map_nth_subseq [OF srt rng] srt rng r by simp
  then show ?thesis by blast
qed

subsection \<open>A second run on the output of a run\<close>

lemma hits_job_fingerprints:
  "set (hits k (job_fingerprints jobs)) = {i. i < length jobs \<and> generate_fingerprint (jobs ! i) = k}"
proof -
  have "(i, k, j) \<in> set (job_fingerprints jobs) \<longleftrightarrow>
      i < length jobs \<and> generate_fingerprint (jobs ! i) = k \<and> j = jobs ! i" for i j
  proof
    assume "(i, k, j) \<in> set (job_fingerprints jobs)"
    then obtain n where "n < length jobs" "job_fingerprints jobs ! n = (i, k, j)"
      by (auto simp: in_set_conv_nth job_fingerprints_length)
    then show "i < length jobs \<and> generate_fingerprint (jobs ! i) = k \<and> j = jobs ! i"
      by (auto simp: job_fingerprints_nth)
  next
    assume a: "i < length jobs \<and> generate_fingerprint (jobs ! i) = k \<and> j = jobs ! i"
    then have "job_fingerprints jobs ! i = (i, k, j)" by (simp add: job_fingerprints_nth)
    moreover have "i < length (job_fingerprints jobs)"
      using a by (simp add: job_fingerprints_length)
    ultimately show "(i, k, j) \<in> set (job_fingerprints jobs)"
      by (metis nth_mem)
  qed
  then show ?thesis by (auto simp: hits_set)
qed

lemma same_fingerprint_same_group:
  assumes "i < length jobs" "j < length jobs" "i \<noteq> j"
    and "generate_fingerprint (jobs ! i) = generate_fingerprint (jobs ! j)"
  shows "\<exists>g \<in> set (groups_of th jobs). i \<in> set g \<and> j \<in> set g"
proof -
  let ?g = "hits (generate_fingerprint (jobs ! i)) (job_fingerprints jobs)"
  have ij: "i \<in> set ?g" "j \<in> set ?g"
    using assms by (simp_all add: hits_job_fingerprints)
  have "card {i, j} \<le> card (set ?g)"
    by (rule card_mono) (use ij in auto)
  moreover have "card {i, j} = 2" using assms(3) by simp
  ultimately have "1 < length ?g"
    using card_length [of ?g] by linarith
  then have "?g \<in> set (find_exact_duplicates (job_fingerprints jobs))"
    by (auto simp: find_exact_duplicates_mem)
  with ij show ?thesis by (auto simp: groups_of_def)
qed

lemma representative_unique:
  "list_all2 (\<lambda>b g. b \<in> set g) bs groups \<Longrightarrow> distinct (concat groups) \<Longrightarrow>
   g \<in> set groups \<Longrightarrow> b \<in> set bs \<Longrightarrow> b' \<in> set bs \<Longrightarrow> b \<in> set g \<Longrightarrow> b' \<in> set g \<Longrightarrow>
   b = b'"
proof (induction arbitrary: rule: list_all2_induct)
  case Nil
  then show ?case by simp
next
  case (Cons b0 bs g0 groups)
  have sub: "set bs \<subseteq> set (concat groups)"
    by (rule representatives_grouped [OF Cons.hyps(2)])
  have disj: "set g0 \<inter> set (concat groups) = {}" and d: "distinct (concat groups)"
    using Cons.prems(1) by auto
  show ?case
  proof (cases "g = g0")
    case True
    have "x = b0" if "x \<in> set (b0 # bs)" "x \<in> set g0" for x
      using that sub disj by auto
    with Cons.prems True show ?thesis by metis
  next
    case False
    with Cons.prems(2) have g: "g \<in> set groups" by simp
    have "x \<in> set bs" if "x \<in> set (b0 # bs)" "x \<in> set g" for x
      using that g disj Cons.hyps(1) by auto
    with Cons.prems have "b \<in> set bs" "b' \<in> set bs" by blast+
    from Cons.IH [OF d g this Cons.prems(5,6)] show ?thesis .
  qed
qed

text \<open>The listings that a run returns have pairwise different fingerprints.\<close>

lemma unique_jobs_fingerprints:
  assumes "deduplicate_jobs th jobs = Inr res"
  shows "distinct (map generate_fingerprint (unique_jobs res))"
proof -
  from deduplicate_jobs_result [of th jobs] assms
  obtain bs where bs: "list_all2 (\<lambda>b g. b \<in> set g) bs (groups_of th jobs)"
    and u: "unique_jobs res =
       map ((!) jobs) (sorted_list_of_set (set bs \<union> ungrouped (groups_of th jobs) (length jobs)))"
    by auto
  let ?G = "groups_of th jobs"
  let ?S = "set bs \<union> ungrouped ?G (length jobs)"
  have fin: "finite ?S" by (simp add: ungrouped_def)
  have range: "i < length jobs" if "i \<in> ?S" for i
    using that representatives_grouped [OF bs] groups_of_props(3) [of th jobs]
    by (auto simp: ungrouped_def)
  have grouped: "i \<in> set bs" if "i \<in> ?S" "i \<in> set g" "g \<in> set ?G" for i g
    using that by (auto simp: ungrouped_def)
  have inj: "inj_on (\<lambda>i. generate_fingerprint (jobs ! i)) ?S"
  proof (rule inj_onI, rule ccontr)
    fix i j assume ij: "i \<in> ?S" "j \<in> ?S"
      "generate_fingerprint (jobs ! i) = generate_fingerprint (jobs ! j)" "i \<noteq> j"
    from same_fingerprint_same_group [OF range [OF ij(1)] range [OF ij(2)] ij(4,3), of th]
    obtain g where g: "g \<in> set ?G" "i \<in> set g" "j \<in> set g" by blast
    from representative_unique [OF bs groups_of_props(1) g(1)
        grouped [OF ij(1) g(2,1)] grouped [OF ij(2) g(3,1)] g(2,3)] ij(4)
    show False by simp
  qed
  have "distinct (map (\<lambda>i. generate_fingerprint (jobs ! i)) (sorted_list_of_set ?S))"
    using inj fin by (simp add: distinct_map)
  then show ?thesis by (simp add: u comp_def)
qed

lemma filter_key_length:
  "distinct (map f xs) \<Longrightarrow> length (filter (\<lambda>x. f x = k) xs) \<le> 1"
proof (induction xs)
  case Nil
  then show ?case by simp
next
  case (Cons a xs)
  show ?case
  proof (cases "f a = k")
    case True
    from Cons.prems have "f a \<notin> f ` set xs" by simp
    with True have "\<forall>x \<in> set xs. f x \<noteq> k" by blast
    then have "filter (\<lambda>x. f x = k) xs = []"
      by (simp add: filter_empty_conv)
    with True show ?thesis by simp
  next
    case False
    with Cons show ?thesis by simp
  qed
qed

lemma job_fingerprints_keys:
  "map (\<lambda>e. fst (snd e)) (job_fingerprints jobs) = map generate_fingerprint jobs"
  "map (\<lambda>e. snd (snd e)) (job_fingerprints jobs) = jobs"
  by (rule nth_equalityI; simp add: job_fingerprints_length job_fingerprints_nth)+

lemma no_exact_duplicates:
  assumes "distinct (map generate_fingerprint jobs)"
  shows "find_exact_duplicates (job_fingerprints jobs) = []"
proof -
  let ?fps = "job_fingerprints jobs"
  have le: "length (hits k ?fps) \<le> 1" for k
    unfolding hits_def length_map
    by (rule filter_key_length) (simp add: job_fingerprints_keys assms)
  have "g \<notin> set (find_exact_duplicates ?fps)" for g
  proof
    assume "g \<in> set (find_exact_duplicates ?fps)"
    then obtain k where "g = hits k ?fps" "1 < length g"
      unfolding find_exact_duplicates_mem by blast
    with le [of k] show False by simp
  qed
  then show ?thesis
    by (cases "find_exact_duplicates ?fps") (simp, metis list.set_intros(1))
qed

lemma compare_rest_dissimilar:
  "\<forall>e \<in> set rest. calculate_similarity cur (snd (snd e)) < th \<Longrightarrow>
   compare_rest th cur rest (grp, pr) = (grp, pr)"
  by (induction rest) (auto simp: not_le)

lemma fuzzy_loop_dissimilar:
  "sorted_wrt (\<lambda>a b. calculate_similarity (snd (snd a)) (snd (snd b)) < th) fps \<Longrightarrow>
   fuzzy_loop th fps (groups, pr) = groups"
proof (induction fps)
  case Nil
  then show ?case by simp
next
  case (Cons e fps)
  obtain i fp cur where e: "e = (i, fp, cur)" by (cases e) auto
  from Cons.prems have "\<forall>x \<in> set fps. calculate_similarity cur (snd (snd x)) < th"
    by (simp add: e)
  from compare_rest_dissimilar [OF this, of "[i]" pr] Cons show ?case
    by (simp add: e)
qed

lemma no_fuzzy_duplicates:
  assumes "sorted_wrt (\<lambda>a b. calculate_similarity a b < th) jobs"
  shows "find_fuzzy_duplicates th (job_fingerprints jobs) ex = []"
proof -
  have "sorted_wrt (\<lambda>a b. calculate_similarity a b < th)
      (map (\<lambda>e. snd (snd e)) (job_fingerprints jobs))"
    using assms by (simp add: job_fingerprints_keys)
  then have "sorted_wrt (\<lambda>a b. calculate_similarity (snd (snd a)) (snd (snd b)) < th)
      (job_fingerprints jobs)"
    by (simp add: sorted_wrt_map)
  then show ?thesis
    by (simp add: find_fuzzy_duplicates_def fuzzy_loop_dissimilar)
qed

lemma select_best_jobs_no_groups: "select_best_jobs jobs [] = Inr jobs"
proof -
  have "fold (add_ungrouped []) [0 ..< length jobs] {} = {0 ..< length jobs}"
    by (auto simp: fold_add_ungrouped)
  then show ?thesis
    by (simp add: select_best_jobs_def index_all_result map_nth)
qed

text \<open>A list without equal fingerprints and without a similar pair is returned as it is.\<close>

lemma deduplicate_jobs_clean:
  assumes "distinct (map generate_fingerprint jobs)"
    and "sorted_wrt (\<lambda>a b. calculate_similarity a b < th) jobs"
  shows "deduplicate_jobs th jobs =
    Inr \<lparr> unique_jobs = jobs, duplicates_removed = 0, duplicate_groups = [] \<rparr>"
  by (simp add: deduplicate_jobs_def Let_def no_exact_duplicates [OF assms(1)]
        no_fuzzy_duplicates [OF assms(2)] select_best_jobs_no_groups)

text \<open>
  Claim C4, amended: when no listing in the output of a run reaches the similarity
  threshold with a later listing of that output, a run on the output removes nothing and
  returns the same list. (The output of a run never holds two listings with the same
  fingerprint; it can hold listings that are similar to one another.)
\<close>

theorem deduplicate_jobs_idempotent_if_dissimilar:
  assumes "deduplicate_jobs th jobs = Inr res"
    and "sorted_wrt (\<lambda>a b. calculate_similarity a b < th) (unique_jobs res)"
  shows "deduplicate_jobs th (unique_jobs res) =
    Inr \<lparr> unique_jobs = unique_jobs res, duplicates_removed = 0, duplicate_groups = [] \<rparr>"
  by (rule deduplicate_jobs_clean [OF unique_jobs_fingerprints [OF assms(1)] assms(2)])

subsection \<open>Runs on sample listings\<close>

lemma fp_acme: "generate_fingerprint acme_job = ''641034fe50c105bbc8f9e418d52c25c8''"
  by code_simp

lemma fp_chittagong: "generate_fingerprint chittagong_job = ''8f1589b2fe0327367296c36c55e9e4ec''"
  by code_simp

lemma fp_designer: "generate_fingerprint designer_job = ''9d218ea837aec4a0cae193a6fe602e98''"
  by code_simp

lemma sim_acme_chittagong: "calculate_similarity acme_job chittagong_job = 139 / 150"
  by code_simp

lemma sim_acme_designer: "calculate_similarity acme_job designer_job = 17 / 70"
  by code_simp

lemma fps_acme_acme_chittagong:
  "job_fingerprints [acme_job, acme_job, chittagong_job] =
     [(0, ''641034fe50c105bbc8f9e418d52c25c8'', acme_job),
      (1, ''641034fe50c105bbc8f9e418d52c25c8'', acme_job),
      (2, ''8f1589b2fe0327367296c36c55e9e4ec'', chittagong_job)]"
  by (simp add: job_fingerprints_def fp_acme fp_chittagong)

lemma exact_acme_acme_chittagong:
  "find_exact_duplicates
     [(0, ''641034fe50c105bbc8f9e418d52c25c8'', acme_job),
      (1, ''641034fe50c105bbc8f9e418d52c25c8'', acme_job),
      (2, ''8f1589b2fe0327367296c36c55e9e4ec'', chittagong_job)] = [[0, 1]]"
  by (simp add: find_exact_duplicates_def fingerprint_groups_def)

lemma fuzzy_acme_acme_chittagong:
  "find_fuzzy_duplicates th
     [(0, ''641034fe50c105bbc8f9e418d52c25c8'', acme_job),
      (1, ''641034fe50c105bbc8f9e418d52c25c8'', acme_job),
      (2, ''8f1589b2fe0327367296c36c55e9e4ec'', chittagong_job)] [[0, 1]] = []"
  by (simp add: find_fuzzy_duplicates_def)

lemma select_acme_acme_chittagong:
  "select_best_jobs [acme_job, acme_job, chittagong_job] [[0, 1]]
     = Inr [acme_job, chittagong_job]"
  by code_simp

lemma run_acme_acme_chittagong:
  "deduplicate_jobs (8 / 10) [acme_job, acme_job, chittagong_job] =
     Inr \<lparr> unique_jobs = [acme_job, chittagong_job], duplicates_removed = 1,
           duplicate_groups = [[0, 1]] \<rparr>"
  unfolding deduplicate_jobs_def Let_def fps_acme_acme_chittagong exact_acme_acme_chittagong
    fuzzy_acme_acme_chittagong append_Nil2 select_acme_acme_chittagong
  by simp

lemma fps_acme_chittagong:
  "job_fingerprints [acme_job, chittagong_job] =
     [(0, ''641034fe50c105bbc8f9e418d52c25c8'', acme_job),
      (1, ''8f1589b2fe0327367296c36c55e9e4ec'', chittagong_job)]"
  by (simp add: job_fingerprints_def fp_acme fp_chittagong)

lemma exact_acme_chittagong:
  "find_exact_duplicates
     [(0, ''641034fe50c105bbc8f9e418d52c25c8'', acme_job),
      (1, ''8f1589b2fe0327367296c36c55e9e4ec'', chittagong_job)] = []"
  by (simp add: find_exact_duplicates_def fingerprint_groups_def)

lemma fuzzy_acme_chittagong:
  "find_fuzzy_duplicates (8 / 10)
     [(0, ''641034fe50c105bbc8f9e418d52c25c8'', acme_job),
      (1, ''8f1589b2fe0327367296c36c55e9e4ec'', chittagong_job)] [] = [[0, 1]]"
  by (simp add: find_fuzzy_duplicates_def sim_acme_chittagong)

lemma select_acme_chittagong:
  "select_best_jobs [acme_job, chittagong_job] [[0, 1]] = Inr [acme_job]"
  by code_simp

lemma run_acme_chittagong:
  "deduplicate_jobs (8 / 10) [acme_job, chittagong_job] =
     Inr \<lparr> unique_jobs = [acme_job], duplicates_removed = 1, duplicate_groups = [[0, 1]] \<rparr>"
  unfolding deduplicate_jobs_def Let_def fps_acme_chittagong exact_acme_chittagong
    fuzzy_acme_chittagong append_Nil select_acme_chittagong
  by simp

lemma fps_acme_acme_designer:
  "job_fingerprints [acme_job, acme_job, designer_job] =
     [(0, ''641034fe50c105bbc8f9e418d52c25c8'', acme_job),
      (1, ''641034fe50c105bbc8f9e418d52c25c8'', acme_job),
      (2, ''9d218ea837aec4a0cae193a6fe602e98'', designer_job)]"
  by (simp add: job_fingerprints_def fp_acme fp_designer)

lemma exact_acme_acme_designer:
  "find_exact_duplicates
     [(0, ''641034fe50c105bbc8f9e418d52c25c8'', acme_job),
      (1, ''641034fe50c105bbc8f9e418d52c25c8'', acme_job),
      (2, ''9d218ea837aec4a0cae193a6fe602e98'', designer_job)] = [[0, 1]]"
  by (simp add: find_exact_duplicates_def fingerprint_groups_def)

lemma fuzzy_acme_acme_designer:
  "find_fuzzy_duplicates th
     [(0, ''641034fe50c105bbc8f9e418d52c25c8'', acme_job),
      (1, ''641034fe50c105bbc8f9e418d52c25c8'', acme_job),
      (2, ''9d218ea837aec4a0cae193a6fe602e98'', designer_job)] [[0, 1]] = []"
  by (simp add: find_fuzzy_duplicates_def)

lemma select_acme_acme_designer:
  "select_best_jobs [acme_job, acme_job, designer_job] [[0, 1]] = Inr [acme_job, designer_job]"
  by code_simp

lemma run_acme_acme_designer:
  "deduplicate_jobs (8 / 10) [acme_job, acme_job, designer_job] =
     Inr \<lparr> unique_jobs = [acme_job, designer_job], duplicates_removed = 1,
           duplicate_groups = [[0, 1]] \<rparr>"
  unfolding deduplicate_jobs_def Let_def fps_acme_acme_designer exact_acme_acme_designer
    fuzzy_acme_acme_designer append_Nil2 select_acme_acme_designer
  by simp

text \<open>
  Claim C3, as stated: every listing is in exactly one group, a singleton if it matched
  nothing, and there are as many unique listings as groups. A run on a single listing
  returns that listing and no group at all.
\<close>

theorem deduplicate_jobs_singleton_counterexample:
  "deduplicate_jobs (8 / 10) [acme_job] =
     Inr \<lparr> unique_jobs = [acme_job], duplicates_removed = 0, duplicate_groups = [] \<rparr>"
  by (simp add: deduplicate_jobs_clean)

theorem deduplicate_jobs_groups_witness:
  "distinct (concat [[0, 1 :: nat]]) \<and>
   length [acme_job, chittagong_job]
     = length [[0, 1 :: nat]]
       + card {i. i < length [acme_job, acme_job, chittagong_job] \<and> i \<notin> set (concat [[0, 1]])}"
  using deduplicate_jobs_groups [of "8 / 10" "[acme_job, acme_job, chittagong_job]"]
  unfolding run_acme_acme_chittagong
  by simp

theorem deduplicate_jobs_selects_witness:
  "subseq [acme_job, chittagong_job] [acme_job, acme_job, chittagong_job]"
  using deduplicate_jobs_selects [of "8 / 10" "[acme_job, acme_job, chittagong_job]"]
  unfolding run_acme_acme_chittagong
  by auto

text \<open>
  Claim C4, as stated: a run on the output of a run changes nothing. The fuzzy pass
  skips the members of exact groups. Of two identical listings and a third one with
  the same title and company at another location, the first run removes one of the
  identical pair and keeps the third, which it never compared; the second run compares
  the two that are left, finds them similar (0.93) and removes one more.
\<close>

theorem deduplicate_jobs_idempotence_counterexample:
  "deduplicate_jobs (8 / 10) [acme_job, acme_job, chittagong_job] =
     Inr \<lparr> unique_jobs = [acme_job, chittagong_job], duplicates_removed = 1,
           duplicate_groups = [[0, 1]] \<rparr> \<and>
   deduplicate_jobs (8 / 10) [acme_job, chittagong_job] =
     Inr \<lparr> unique_jobs = [acme_job], duplicates_removed = 1, duplicate_groups = [[0, 1]] \<rparr>"
  using run_acme_acme_chittagong run_acme_chittagong by simp

theorem deduplicate_jobs_idempotent_if_dissimilar_witness:
  "deduplicate_jobs (8 / 10) [acme_job, acme_job, designer_job] =
     Inr \<lparr> unique_jobs = [acme_job, designer_job], duplicates_removed = 1,
           duplicate_groups = [[0, 1]] \<rparr> \<and>
   calculate_similarity acme_job designer_job < 8 / 10 \<and>
   deduplicate_jobs (8 / 10) [acme_job, designer_job] =
     Inr \<lparr> unique_jobs = [acme_job, designer_job], duplicates_removed = 0,
           duplicate_groups = [] \<rparr>"
proof -
  have s: "sorted_wrt (\<lambda>a b. calculate_similarity a b < 8 / 10)
      (unique_jobs \<lparr> unique_jobs = [acme_job, designer_job], duplicates_removed = 1,
           duplicate_groups = [[0, 1]] \<rparr>)"
    by (simp add: sim_acme_designer)
  have a: "deduplicate_jobs (8 / 10) [acme_job, designer_job] =
     Inr \<lparr> unique_jobs = [acme_job, designer_job], duplicates_removed = 0,
           duplicate_groups = [] \<rparr>"
    using deduplicate_jobs_idempotent_if_dissimilar [OF run_acme_acme_designer s] by simp
  have b: "calculate_similarity acme_job designer_job < 8 / 10"
    by (simp add: sim_acme_designer)
  show ?thesis
    by (rule conjI [OF run_acme_acme_designer conjI [OF b a]])
qed

end
